theory Spec2Isabelle
  imports Main "HOL-Library.AList" "HOL-Library.Multiset"
begin

section \<open>Shared schema (shared/schema.ts)\<close>

text \<open>
  Rows of the three tables the routes touch. Timestamps are milliseconds since the epoch
  (\<open>Date.getTime()\<close>), serial ids are naturals. A nullable text column is a
  \<open>string option\<close>. The fields of the insert types carry the prefix \<open>ins_\<close> /
  \<open>new_\<close>, since a record field is a constant of the theory and the select and insert
  types share their field names in the source.
\<close>

record User =
  user_id :: nat
  githubId :: string
  username :: string
  email :: "string option"
  avatarUrl :: "string option"
  accessToken :: string
  user_createdAt :: int

record InsertUser =
  new_githubId :: string
  new_username :: string
  new_email :: "string option"
  new_avatarUrl :: "string option"
  new_accessToken :: string

text \<open>
  The \<open>metadata\<close> column is free-form JSON; the routes only ever store
  \<open>{message, size}\<close> (uploads) or \<open>{message}\<close> (deletes), where \<open>message\<close> is
  the request's optional commit message.
\<close>

record metadata =
  md_message :: "string option"
  md_size :: "nat option"

record FileOperation =
  op_id :: nat
  userId :: nat
  repositoryId :: nat
  operation :: string
  filePath :: string
  branch :: string
  status :: string
  metadata :: "metadata option"
  createdAt :: int

record InsertFileOperation =
  ins_userId :: nat
  ins_repositoryId :: nat
  ins_operation :: string
  ins_filePath :: string
  ins_branch :: string
  ins_status :: "string option"
  ins_metadata :: "metadata option"

section \<open>Exceptions and promises\<close>

text \<open>
  A value thrown by an awaited call. The handlers only distinguish
  \<open>error instanceof Error\<close> (and then read \<open>error.message\<close>) from anything else.
  A promise is modelled by its settled value: \<open>Inl\<close> a rejection, \<open>Inr\<close> the result.
\<close>

datatype thrown = Error string | NonError

section \<open>The storage interface (interface IStorage)\<close>

text \<open>
  The routes talk to \<open>storage\<close> through \<open>IStorage\<close>; the interface is a record of
  operations over the implementation's state \<open>'s\<close>. A lookup of one user returns its
  value; a write, and the activity query, which builds and sorts an array, return their value
  and the state they leave; every call may reject. The extra \<open>int\<close>
  argument of the two create operations is the value \<open>new Date()\<close> (or the database's
  \<open>defaultNow()\<close>) reads while the operation runs.
\<close>

record 's IStorage =
  getUser :: "nat \<Rightarrow> 's \<Rightarrow> thrown + User option"
  getUserByGithubId :: "string \<Rightarrow> 's \<Rightarrow> thrown + User option"
  createUser :: "InsertUser \<Rightarrow> int \<Rightarrow> 's \<Rightarrow> thrown + (User \<times> 's)"
  updateUserToken :: "nat \<Rightarrow> string \<Rightarrow> 's \<Rightarrow> thrown + (User option \<times> 's)"
  createFileOperation :: "InsertFileOperation \<Rightarrow> int \<Rightarrow> 's \<Rightarrow> thrown + (FileOperation \<times> 's)"
  getUserFileOperations :: "nat \<Rightarrow> nat \<Rightarrow> 's \<Rightarrow> thrown + (FileOperation list \<times> 's)"
  updateFileOperationStatus :: "nat \<Rightarrow> string \<Rightarrow> 's \<Rightarrow> thrown + (FileOperation option \<times> 's)"

section \<open>MemStorage (class MemStorage implements IStorage)\<close>

text \<open>
  A JavaScript \<open>Map\<close> iterates in insertion order and \<open>set\<close> on a present key keeps
  the key's position: an association list with \<^const>\<open>AList.update\<close>, read with
  \<^const>\<open>map_of\<close>; \<open>Array.from(m.values())\<close> is \<open>map snd\<close>.
  The \<open>repositories\<close> map is left out: none of the routes below reads it.
\<close>

record MemStorage =
  users :: "(nat \<times> User) list"
  fileOperations :: "(nat \<times> FileOperation) list"
  currentUserId :: nat
  currentOpId :: nat

definition MemStorage_new :: MemStorage where
  "MemStorage_new = \<lparr>users = [], fileOperations = [], currentUserId = 1, currentOpId = 1\<rparr>"

text \<open>\<open>x || null\<close> on an optional string: the empty string is falsy too.\<close>

definition or_null :: "string option \<Rightarrow> string option" where
  "or_null x = (case x of None \<Rightarrow> None | Some v \<Rightarrow> if v = [] then None else Some v)"

definition mem_getUser :: "nat \<Rightarrow> MemStorage \<Rightarrow> User option" where
  "mem_getUser i s = map_of (users s) i"

definition mem_getUserByGithubId :: "string \<Rightarrow> MemStorage \<Rightarrow> User option" where
  "mem_getUserByGithubId g s = find (\<lambda>user. githubId user = g) (map snd (users s))"

definition mem_createUser :: "InsertUser \<Rightarrow> int \<Rightarrow> MemStorage \<Rightarrow> User \<times> MemStorage" where
  "mem_createUser insertUser date s =
     (let i = currentUserId s;
          user = \<lparr>user_id = i, githubId = new_githubId insertUser,
                  username = new_username insertUser,
                  email = or_null (new_email insertUser),
                  avatarUrl = or_null (new_avatarUrl insertUser),
                  accessToken = new_accessToken insertUser,
                  user_createdAt = date\<rparr>
      in (user, s\<lparr>users := AList.update i user (users s), currentUserId := i + 1\<rparr>))"

definition mem_updateUserToken :: "nat \<Rightarrow> string \<Rightarrow> MemStorage \<Rightarrow> User option \<times> MemStorage" where
  "mem_updateUserToken i token s =
     (case map_of (users s) i of
        Some user \<Rightarrow>
          (let updatedUser = user\<lparr>accessToken := token\<rparr>
           in (Some updatedUser, s\<lparr>users := AList.update i updatedUser (users s)\<rparr>))
      | None \<Rightarrow> (None, s))"

definition mem_createFileOperation ::
  "InsertFileOperation \<Rightarrow> int \<Rightarrow> MemStorage \<Rightarrow> FileOperation \<times> MemStorage" where
  "mem_createFileOperation insertOperation date s =
     (let i = currentOpId s;
          fileOp = \<lparr>op_id = i, userId = ins_userId insertOperation,
                       repositoryId = ins_repositoryId insertOperation,
                       operation = ins_operation insertOperation,
                       filePath = ins_filePath insertOperation,
                       branch = ins_branch insertOperation,
                       status = (case ins_status insertOperation of
                                   None \<Rightarrow> ''pending'' | Some st \<Rightarrow> st),
                       metadata = ins_metadata insertOperation,
                       createdAt = date\<rparr>
      in (fileOp,
          s\<lparr>fileOperations := AList.update i fileOp (fileOperations s),
            currentOpId := i + 1\<rparr>))"

text \<open>
  \<open>Array.prototype.sort\<close> is stable; with the comparator
  \<open>b.createdAt.getTime() - a.createdAt.getTime()\<close> it orders by \<open>createdAt\<close>
  descending, records with equal time staying in insertion order: the stable
  \<^const>\<open>sort_key\<close> on the negated time. \<open>slice(0, limit)\<close> is \<^const>\<open>take\<close>.
  The array that is sorted in place is the fresh one of \<open>filter\<close>; the map is not
  written.
\<close>

definition mem_getUserFileOperations ::
  "nat \<Rightarrow> nat \<Rightarrow> MemStorage \<Rightarrow> FileOperation list \<times> MemStorage" where
  "mem_getUserFileOperations uid limit s =
     (take limit
        (sort_key (\<lambda>op. - createdAt op)
           (filter (\<lambda>op. userId op = uid) (map snd (fileOperations s)))), s)"

definition mem_updateFileOperationStatus ::
  "nat \<Rightarrow> string \<Rightarrow> MemStorage \<Rightarrow> FileOperation option \<times> MemStorage" where
  "mem_updateFileOperationStatus i st s =
     (case map_of (fileOperations s) i of
        Some fileOp \<Rightarrow>
          (let updatedOperation = fileOp\<lparr>status := st\<rparr>
           in (Some updatedOperation,
               s\<lparr>fileOperations := AList.update i updatedOperation (fileOperations s)\<rparr>))
      | None \<Rightarrow> (None, s))"

text \<open>The class as an implementation of the interface: none of its promises rejects.\<close>

definition memStorage :: "MemStorage IStorage" where
  "memStorage =
     \<lparr>getUser = (\<lambda>i s. Inr (mem_getUser i s)),
      getUserByGithubId = (\<lambda>g s. Inr (mem_getUserByGithubId g s)),
      createUser = (\<lambda>u date s. Inr (mem_createUser u date s)),
      updateUserToken = (\<lambda>i token s. Inr (mem_updateUserToken i token s)),
      createFileOperation = (\<lambda>ins date s. Inr (mem_createFileOperation ins date s)),
      getUserFileOperations = (\<lambda>uid limit s. Inr (mem_getUserFileOperations uid limit s)),
      updateFileOperationStatus = (\<lambda>i st s. Inr (mem_updateFileOperationStatus i st s))\<rparr>"

section \<open>The remote content store and the clock\<close>

text \<open>
  What \<open>fetch\<close> sends to \<open>api.github.com\<close>: the method, the URL, the bearer token of
  the \<open>Authorization\<close> header and the fields of the JSON body. \<open>JSON.stringify\<close>
  drops a property whose value is \<open>undefined\<close>, so an absent field is \<open>None\<close>.
\<close>

datatype http_method = PUT | DELETE

record store_request =
  req_method :: http_method
  req_url :: string
  req_token :: string
  req_message :: string
  req_content :: "string option"
  req_branch :: string
  req_sha :: "string option"

text \<open>
  The parsed JSON body of a response: \<open>null\<close>, or an object of which the handlers read
  only the property \<open>message\<close>; the rest of the object is carried along unread.
\<close>

datatype json_body = JsonNull | JsonObject "string option" string

text \<open>
  The two awaits at the head of every write, \<open>fetch(...)\<close> and
  \<open>uploadResponse.json()\<close>, settle together: either one of them rejects, or there is
  a response with its \<open>ok\<close> flag and its parsed body.
\<close>

datatype fetch_result = Rejected thrown | Responded bool json_body

text \<open>The user object of \<open>GET https://api.github.com/user\<close>.\<close>

record github_user =
  gh_id :: nat
  login :: string
  gh_email :: "string option"
  avatar_url :: string

datatype user_fetch_result = UserRejected thrown | UserNotOk | UserOk github_user

text \<open>
  Everything outside the process is a state machine over a state \<open>'w\<close> the server cannot
  see: the remote store answers a write and moves on, the user endpoint answers a token,
  and the wall clock is read off the state.
\<close>

record 'w env =
  fetch :: "store_request \<Rightarrow> 'w \<Rightarrow> fetch_result \<times> 'w"
  fetch_user :: "string \<Rightarrow> 'w \<Rightarrow> user_fetch_result \<times> 'w"
  now :: "'w \<Rightarrow> int"

text \<open>
  The state a handler runs in: the state of the storage implementation, the state of the
  outside world, and the trace of the write requests issued so far (the effect of
  \<open>fetch\<close> as seen from the server).
\<close>

record ('s, 'w) sys =
  db :: 's
  world :: 'w
  sent :: "store_request list"

definition do_fetch ::
  "'w env \<Rightarrow> store_request \<Rightarrow> ('s, 'w) sys \<Rightarrow> fetch_result \<times> ('s, 'w) sys" where
  "do_fetch e req sy =
     (case fetch e req (world sy) of
        (r, w') \<Rightarrow> (r, sy\<lparr>world := w', sent := sent sy @ [req]\<rparr>))"

section \<open>Routes (server/routes.ts): common parts\<close>

text \<open>\<open>res.status(n).json({error})\<close>, or \<open>res.json(x)\<close> with the default status 200.\<close>

datatype 'a response = Fail nat string | Json 'a

text \<open>
  \<open>req.session.userId\<close> is absent or a number; \<open>!userId\<close> also rejects the number 0.
\<close>

definition session_userId :: "nat option \<Rightarrow> nat option" where
  "session_userId session =
     (case session of None \<Rightarrow> None | Some n \<Rightarrow> if n = 0 then None else Some n)"

text \<open>\<open>x || dflt\<close> on an optional string: \<open>undefined\<close> and the empty string are falsy.\<close>

definition or_else :: "string option \<Rightarrow> string \<Rightarrow> string" where
  "or_else x dflt = (case x of None \<Rightarrow> dflt | Some v \<Rightarrow> if v = [] then dflt else v)"

text \<open>The destructuring default \<open>branch = "main"\<close> applies to \<open>undefined\<close> only.\<close>

definition branch_or_main :: "string option \<Rightarrow> string" where
  "branch_or_main b = (case b of None \<Rightarrow> ''main'' | Some v \<Rightarrow> v)"

definition contents_url :: "string \<Rightarrow> string \<Rightarrow> string \<Rightarrow> string" where
  "contents_url owner repo p =
     ''https://api.github.com/repos/'' @ owner @ ''/'' @ repo @ ''/contents/'' @ p"

text \<open>\<open>error instanceof Error ? error.message : "Unknown error"\<close>\<close>

definition error_message :: "thrown \<Rightarrow> string" where
  "error_message t = (case t of Error m \<Rightarrow> m | NonError \<Rightarrow> ''Unknown error'')"

text \<open>
  The messages of the \<open>TypeError\<close>s the engine raises on \<open>file.content.length\<close> with
  no content and on \<open>result.message\<close> with a \<open>null\<close> body.
\<close>

definition length_of_undefined :: string where
  "length_of_undefined = ''Cannot read properties of undefined (reading 'length')''"

definition message_of_null :: string where
  "message_of_null = ''Cannot read properties of null (reading 'message')''"

section \<open>POST /api/repositories/:owner/:repo/upload-batch\<close>

text \<open>
  The request body \<open>{files, branch, message}\<close>. \<open>files\<close> is missing, something that
  is not an array, or an array. The body is parsed JSON and nothing checks the elements of
  the array: an element is \<open>null\<close> (\<open>None\<close>) or an object \<open>{path, content}\<close> with a
  string \<open>path\<close> and a \<open>content\<close> that may be missing. The length of a string counts
  its characters; the content is base64 text, where characters and UTF-16 units agree.
\<close>

record upload_file =
  path :: string
  content :: "string option"

datatype files_field = FilesMissing | FilesNotArray | FilesArray "upload_file option list"

record batch_body =
  files :: files_field
  b_branch :: "string option"
  b_message :: "string option"

text \<open>An entry of \<open>results\<close> is \<open>{path, success: true, result}\<close>, one of \<open>errors\<close> \<open>{path, error}\<close>.\<close>

record result_item =
  r_path :: string
  r_result :: json_body

record error_item =
  e_path :: string
  e_error :: string

record aggregate =
  success :: bool
  uploaded :: nat
  failed :: nat
  results :: "result_item list"
  errors :: "error_item list"

text \<open>The write request of one file of the batch.\<close>

definition batch_request ::
  "User \<Rightarrow> string \<Rightarrow> string \<Rightarrow> batch_body \<Rightarrow> upload_file \<Rightarrow> store_request" where
  "batch_request user owner repo body file =
     \<lparr>req_method = PUT,
      req_url = contents_url owner repo (path file),
      req_token = accessToken user,
      req_message = or_else (b_message body) (''Upload '' @ path file),
      req_content = content file,
      req_branch = branch_or_main (b_branch body),
      req_sha = None\<rparr>"

text \<open>
  The body of the \<open>for\<close> loop, with its \<open>try\<close>/\<open>catch\<close>, on an element that is an
  object. The loop state is the two arrays and the system state. On an \<open>ok\<close> response the entry is pushed to
  \<open>results\<close> first; the arguments of \<open>createFileOperation\<close> are evaluated next
  (\<open>file.content.length\<close> throws without a content), then the call is awaited; an
  exception at either point lands in the \<open>catch\<close>, which pushes to \<open>errors\<close>.
\<close>

definition upload_one ::
  "'s IStorage \<Rightarrow> 'w env \<Rightarrow> User \<Rightarrow> nat \<Rightarrow> string \<Rightarrow> string \<Rightarrow> batch_body \<Rightarrow> upload_file \<Rightarrow>
   result_item list \<times> error_item list \<times> ('s, 'w) sys \<Rightarrow>
   result_item list \<times> error_item list \<times> ('s, 'w) sys" where
  "upload_one st e user uid owner repo body file acc =
     (case acc of (rs, es, sy) \<Rightarrow>
       (case do_fetch e (batch_request user owner repo body file) sy of
          (Rejected t, sy1) \<Rightarrow>
            (rs, es @ [\<lparr>e_path = path file, e_error = error_message t\<rparr>], sy1)
        | (Responded ok result, sy1) \<Rightarrow>
            if ok then
              (let rs1 = rs @ [\<lparr>r_path = path file, r_result = result\<rparr>] in
               case content file of
                 None \<Rightarrow>
                   (rs1, es @ [\<lparr>e_path = path file, e_error = length_of_undefined\<rparr>], sy1)
               | Some c \<Rightarrow>
                   (case createFileOperation st
                           \<lparr>ins_userId = uid, ins_repositoryId = 0,
                            ins_operation = ''upload'', ins_filePath = path file,
                            ins_branch = branch_or_main (b_branch body),
                            ins_status = Some ''completed'',
                            ins_metadata =
                              Some \<lparr>md_message = b_message body, md_size = Some (length c)\<rparr>\<rparr>
                           (now e (world sy1)) (db sy1) of
                      Inl t \<Rightarrow>
                        (rs1, es @ [\<lparr>e_path = path file, e_error = error_message t\<rparr>], sy1)
                    | Inr (fileOp, s') \<Rightarrow> (rs1, es, sy1\<lparr>db := s'\<rparr>)))
            else
              (case result of
                 JsonNull \<Rightarrow>
                   (rs, es @ [\<lparr>e_path = path file, e_error = message_of_null\<rparr>], sy1)
               | JsonObject m rest \<Rightarrow>
                   (rs, es @ [\<lparr>e_path = path file, e_error = or_else m ''Upload failed''\<rparr>],
                    sy1))))"

text \<open>
  The loop either runs to its end or is left by an exception; both ways it leaves a loop
  state behind. On an element that is \<open>null\<close>, \<open>file.path\<close> throws a \<open>TypeError\<close>
  while the URL of the request is built, before anything is sent; the \<open>catch\<close> of the
  loop body evaluates \<open>file.path\<close> again for the entry it wants to push, which throws
  out of the \<open>catch\<close> and out of the loop, with nothing pushed and the remaining
  elements not visited.
\<close>

datatype 'a ended = Escaped 'a | Completed 'a

fun batch_loop ::
  "'s IStorage \<Rightarrow> 'w env \<Rightarrow> User \<Rightarrow> nat \<Rightarrow> string \<Rightarrow> string \<Rightarrow> batch_body \<Rightarrow>
   upload_file option list \<Rightarrow>
   result_item list \<times> error_item list \<times> ('s, 'w) sys \<Rightarrow>
   (result_item list \<times> error_item list \<times> ('s, 'w) sys) ended" where
  "batch_loop st e user uid owner repo body [] acc = Completed acc"
| "batch_loop st e user uid owner repo body (None # fs) acc = Escaped acc"
| "batch_loop st e user uid owner repo body (Some file # fs) acc =
     batch_loop st e user uid owner repo body fs
       (upload_one st e user uid owner repo body file acc)"

text \<open>
  The handler. A rejection of \<open>storage.getUser\<close>, and an exception that leaves the
  loop, are caught by the outer \<open>catch\<close>, which answers with status 500; what the loop
  did before stays done.
\<close>

definition upload_batch ::
  "'s IStorage \<Rightarrow> 'w env \<Rightarrow> nat option \<Rightarrow> string \<Rightarrow> string \<Rightarrow> batch_body \<Rightarrow> ('s, 'w) sys \<Rightarrow>
   aggregate response \<times> ('s, 'w) sys" where
  "upload_batch st e session owner repo body sy =
     (case session_userId session of
        None \<Rightarrow> (Fail 401 ''Not authenticated'', sy)
      | Some uid \<Rightarrow>
          (case getUser st uid (db sy) of
             Inl t \<Rightarrow> (Fail 500 ''Failed to upload files'', sy)
           | Inr None \<Rightarrow> (Fail 404 ''User not found'', sy)
           | Inr (Some user) \<Rightarrow>
               (case files body of
                  FilesArray fs \<Rightarrow>
                    if fs = [] then (Fail 400 ''Files array is required'', sy)
                    else
                      (case batch_loop st e user uid owner repo body fs ([], [], sy) of
                         Completed (rs, es, sy') \<Rightarrow>
                           (Json \<lparr>success = (length es = 0), uploaded = length rs,
                                  failed = length es, results = rs, errors = es\<rparr>, sy')
                       | Escaped (rs, es, sy') \<Rightarrow>
                           (Fail 500 ''Failed to upload files'', sy'))
                | _ \<Rightarrow> (Fail 400 ''Files array is required'', sy))))"

section \<open>PUT and DELETE /api/repositories/:owner/:repo/contents/*\<close>

record put_body =
  p_content :: "string option"
  p_message :: "string option"
  p_branch :: "string option"
  p_sha :: "string option"

text \<open>\<open>...(sha && { sha })\<close>: the property is there only for a truthy \<open>sha\<close>.\<close>

definition if_truthy :: "string option \<Rightarrow> string option" where
  "if_truthy x = (case x of None \<Rightarrow> None | Some v \<Rightarrow> if v = [] then None else Some v)"

definition put_request :: "User \<Rightarrow> string \<Rightarrow> string \<Rightarrow> string \<Rightarrow> put_body \<Rightarrow> store_request" where
  "put_request user owner repo fp body =
     \<lparr>req_method = PUT,
      req_url = contents_url owner repo fp,
      req_token = accessToken user,
      req_message = or_else (p_message body) (''Upload '' @ fp),
      req_content = p_content body,
      req_branch = branch_or_main (p_branch body),
      req_sha = if_truthy (p_sha body)\<rparr>"

text \<open>
  The single-file upload. There is one \<open>try\<close> around the whole handler: a rejected
  \<open>fetch\<close>, \<open>content.length\<close> without a content and a rejected
  \<open>createFileOperation\<close> all end in status 500, the last two after the write went out.
\<close>

definition put_contents ::
  "'s IStorage \<Rightarrow> 'w env \<Rightarrow> nat option \<Rightarrow> string \<Rightarrow> string \<Rightarrow> string \<Rightarrow> put_body \<Rightarrow>
   ('s, 'w) sys \<Rightarrow> json_body response \<times> ('s, 'w) sys" where
  "put_contents st e session owner repo fp body sy =
     (case session_userId session of
        None \<Rightarrow> (Fail 401 ''Not authenticated'', sy)
      | Some uid \<Rightarrow>
          (case getUser st uid (db sy) of
             Inl t \<Rightarrow> (Fail 500 ''Failed to upload file'', sy)
           | Inr None \<Rightarrow> (Fail 404 ''User not found'', sy)
           | Inr (Some user) \<Rightarrow>
               (case do_fetch e (put_request user owner repo fp body) sy of
                  (Rejected t, sy1) \<Rightarrow> (Fail 500 ''Failed to upload file'', sy1)
                | (Responded ok result, sy1) \<Rightarrow>
                    (case p_content body of
                       None \<Rightarrow> (Fail 500 ''Failed to upload file'', sy1)
                     | Some c \<Rightarrow>
                         (case createFileOperation st
                                 \<lparr>ins_userId = uid, ins_repositoryId = 0,
                                  ins_operation = ''upload'', ins_filePath = fp,
                                  ins_branch = branch_or_main (p_branch body),
                                  ins_status =
                                    Some (if ok then ''completed'' else ''failed''),
                                  ins_metadata =
                                    Some \<lparr>md_message = p_message body,
                                          md_size = Some (length c)\<rparr>\<rparr>
                                 (now e (world sy1)) (db sy1) of
                            Inl t \<Rightarrow> (Fail 500 ''Failed to upload file'', sy1)
                          | Inr (fileOp, s') \<Rightarrow> (Json result, sy1\<lparr>db := s'\<rparr>))))))"

record delete_body =
  d_message :: "string option"
  d_branch :: "string option"
  d_sha :: "string option"

definition delete_request ::
  "User \<Rightarrow> string \<Rightarrow> string \<Rightarrow> string \<Rightarrow> delete_body \<Rightarrow> store_request" where
  "delete_request user owner repo fp body =
     \<lparr>req_method = DELETE,
      req_url = contents_url owner repo fp,
      req_token = accessToken user,
      req_message = or_else (d_message body) (''Delete '' @ fp),
      req_content = None,
      req_branch = branch_or_main (d_branch body),
      req_sha = d_sha body\<rparr>"

definition delete_contents ::
  "'s IStorage \<Rightarrow> 'w env \<Rightarrow> nat option \<Rightarrow> string \<Rightarrow> string \<Rightarrow> string \<Rightarrow> delete_body \<Rightarrow>
   ('s, 'w) sys \<Rightarrow> json_body response \<times> ('s, 'w) sys" where
  "delete_contents st e session owner repo fp body sy =
     (case session_userId session of
        None \<Rightarrow> (Fail 401 ''Not authenticated'', sy)
      | Some uid \<Rightarrow>
          (case getUser st uid (db sy) of
             Inl t \<Rightarrow> (Fail 500 ''Failed to delete file'', sy)
           | Inr None \<Rightarrow> (Fail 404 ''User not found'', sy)
           | Inr (Some user) \<Rightarrow>
               (case do_fetch e (delete_request user owner repo fp body) sy of
                  (Rejected t, sy1) \<Rightarrow> (Fail 500 ''Failed to delete file'', sy1)
                | (Responded ok result, sy1) \<Rightarrow>
                    (case createFileOperation st
                            \<lparr>ins_userId = uid, ins_repositoryId = 0,
                             ins_operation = ''delete'', ins_filePath = fp,
                             ins_branch = branch_or_main (d_branch body),
                             ins_status = Some (if ok then ''completed'' else ''failed''),
                             ins_metadata =
                               Some \<lparr>md_message = d_message body, md_size = None\<rparr>\<rparr>
                            (now e (world sy1)) (db sy1) of
                       Inl t \<Rightarrow> (Fail 500 ''Failed to delete file'', sy1)
                     | Inr (fileOp, s') \<Rightarrow> (Json result, sy1\<lparr>db := s'\<rparr>)))))"

section \<open>GET /api/activity\<close>

definition get_activity ::
  "'s IStorage \<Rightarrow> nat option \<Rightarrow> ('s, 'w) sys \<Rightarrow> FileOperation list response \<times> ('s, 'w) sys" where
  "get_activity st session sy =
     (case session_userId session of
        None \<Rightarrow> (Fail 401 ''Not authenticated'', sy)
      | Some uid \<Rightarrow>
          (case getUserFileOperations st uid 10 (db sy) of
             Inl t \<Rightarrow> (Fail 500 ''Failed to fetch activity'', sy)
           | Inr (operations, s') \<Rightarrow> (Json operations, sy\<lparr>db := s'\<rparr>)))"

section \<open>GET /api/user and POST /api/auth/token\<close>

text \<open>
  A user leaves the server as a JSON object, and the two routes remove the token with
  object operations, so the row is taken as the object it is at run time: an ordered list
  of properties with scalar values, \<open>undefined\<close> among them.
\<close>

datatype jval = JUndefined | JNull | JNum nat | JStr string | JDate int

type_synonym jobject = "(string \<times> jval) list"

definition nullable :: "string option \<Rightarrow> jval" where
  "nullable x = (case x of None \<Rightarrow> JNull | Some v \<Rightarrow> JStr v)"

text \<open>
  The properties come in the order in which \<open>MemStorage.createUser\<close> builds the object
  (\<open>{...insertUser, email, avatarUrl, id, createdAt}\<close>, kept by \<open>updateUserToken\<close>);
  a row of \<open>DatabaseStorage\<close> has them in column order, \<open>id\<close> first. The operations
  below keep whatever order they find.
\<close>

definition user_object :: "User \<Rightarrow> jobject" where
  "user_object u =
     [(''githubId'', JStr (githubId u)), (''username'', JStr (username u)),
      (''email'', nullable (email u)), (''avatarUrl'', nullable (avatarUrl u)),
      (''accessToken'', JStr (accessToken u)), (''id'', JNum (user_id u)),
      (''createdAt'', JDate (user_createdAt u))]"

text \<open>\<open>const { accessToken, ...userWithoutToken } = user\<close>: the rest without the key.\<close>

definition rest_without :: "string \<Rightarrow> jobject \<Rightarrow> jobject" where
  "rest_without k obj = filter (\<lambda>kv. fst kv \<noteq> k) obj"

text \<open>
  \<open>{ ...user, accessToken: undefined }\<close>: spreading \<open>undefined\<close> gives no property;
  the key is then set, in place when it is there.
\<close>

definition spread :: "User option \<Rightarrow> jobject" where
  "spread u = (case u of None \<Rightarrow> [] | Some v \<Rightarrow> user_object v)"

text \<open>\<open>res.json\<close> serialises with \<open>JSON.stringify\<close>, which leaves out \<open>undefined\<close> properties.\<close>

definition res_json :: "jobject \<Rightarrow> jobject" where
  "res_json obj = filter (\<lambda>kv. snd kv \<noteq> JUndefined) obj"

definition get_user ::
  "'s IStorage \<Rightarrow> nat option \<Rightarrow> ('s, 'w) sys \<Rightarrow> jobject response \<times> ('s, 'w) sys" where
  "get_user st session sy =
     (case session_userId session of
        None \<Rightarrow> (Fail 401 ''Not authenticated'', sy)
      | Some uid \<Rightarrow>
          (case getUser st uid (db sy) of
             Inl t \<Rightarrow> (Fail 500 ''Failed to get user info'', sy)
           | Inr None \<Rightarrow> (Fail 404 ''User not found'', sy)
           | Inr (Some user) \<Rightarrow>
               (Json (res_json (rest_without ''accessToken'' (user_object user))), sy)))"

text \<open>
  \<open>githubUser.id.toString()\<close>: the decimal digits of the id. The id is a JavaScript
  number; its digits are exact up to \<open>2^53\<close>, which is the range meant here (GitHub's
  ids are far below it).
\<close>

definition digit :: "nat \<Rightarrow> char" where
  "digit d = ''0123456789'' ! d"

fun toString :: "nat \<Rightarrow> string" where
  "toString n = (if n < 10 then [digit n] else toString (n div 10) @ [digit (n mod 10)])"

declare toString.simps [simp del]

record auth_response =
  a_success :: bool
  a_user :: jobject

text \<open>
  The token route. The session is the stored \<open>userId\<close>; the handler returns the response,
  the session and the system state. \<open>insertUserSchema.parse\<close> accepts every value of
  the record type it is given here.
\<close>

definition auth_respond ::
  "User option \<Rightarrow> auth_response response \<times> nat option" where
  "auth_respond user =
     (Json \<lparr>a_success = True,
            a_user = res_json (AList.update ''accessToken'' JUndefined (spread user))\<rparr>,
      map_option user_id user)"

definition auth_token ::
  "'s IStorage \<Rightarrow> 'w env \<Rightarrow> string option \<Rightarrow> nat option \<Rightarrow> ('s, 'w) sys \<Rightarrow>
   (auth_response response \<times> nat option) \<times> ('s, 'w) sys" where
  "auth_token st e token session sy =
     (case if_truthy token of
        None \<Rightarrow> ((Fail 400 ''Token is required'', session), sy)
      | Some tok \<Rightarrow>
          (case fetch_user e tok (world sy) of
             (r, w') \<Rightarrow>
               (let sy1 = sy\<lparr>world := w'\<rparr> in
                case r of
                  UserRejected t \<Rightarrow> ((Fail 500 ''Authentication failed'', session), sy1)
                | UserNotOk \<Rightarrow> ((Fail 401 ''Invalid token'', session), sy1)
                | UserOk githubUser \<Rightarrow>
                    (case getUserByGithubId st (toString (gh_id githubUser)) (db sy1) of
                       Inl t \<Rightarrow> ((Fail 500 ''Authentication failed'', session), sy1)
                     | Inr None \<Rightarrow>
                         (case createUser st
                                 \<lparr>new_githubId = toString (gh_id githubUser),
                                  new_username = login githubUser,
                                  new_email = gh_email githubUser,
                                  new_avatarUrl = Some (avatar_url githubUser),
                                  new_accessToken = tok\<rparr>
                                 (now e w') (db sy1) of
                            Inl t \<Rightarrow> ((Fail 500 ''Authentication failed'', session), sy1)
                          | Inr (user, s') \<Rightarrow> (auth_respond (Some user), sy1\<lparr>db := s'\<rparr>))
                     | Inr (Some found) \<Rightarrow>
                         (case updateUserToken st (user_id found) tok (db sy1) of
                            Inl t \<Rightarrow> ((Fail 500 ''Authentication failed'', session), sy1)
                          | Inr (user, s') \<Rightarrow> (auth_respond user, sy1\<lparr>db := s'\<rparr>))))))"

section \<open>Notions used by the properties\<close>

text \<open>
  The elements the loop visits are the objects before the first \<open>null\<close>; on a list of
  objects the loop is the iteration of its body.
\<close>

definition attempted :: "upload_file option list \<Rightarrow> upload_file list" where
  "attempted fs = map the (takeWhile (\<lambda>x. x \<noteq> None) fs)"

definition run_objects ::
  "'s IStorage \<Rightarrow> 'w env \<Rightarrow> User \<Rightarrow> nat \<Rightarrow> string \<Rightarrow> string \<Rightarrow> batch_body \<Rightarrow> upload_file list \<Rightarrow>
   result_item list \<times> error_item list \<times> ('s, 'w) sys \<Rightarrow>
   result_item list \<times> error_item list \<times> ('s, 'w) sys" where
  "run_objects st e user uid owner repo body objs acc =
     fold (upload_one st e user uid owner repo body) objs acc"

text \<open>The records of a user in the ledger, in insertion order.\<close>

definition records_of :: "nat \<Rightarrow> MemStorage \<Rightarrow> FileOperation list" where
  "records_of uid s = filter (\<lambda>op. userId op = uid) (map snd (fileOperations s))"

text \<open>A write is accepted when there is a response and it is \<open>ok\<close>.\<close>

definition accepted :: "fetch_result \<Rightarrow> bool" where
  "accepted r = (case r of Rejected t \<Rightarrow> False | Responded ok result \<Rightarrow> ok)"

text \<open>
  The counter of \<open>MemStorage\<close> is ahead of every id in the map. It holds initially and
  every operation of the class keeps it.
\<close>

definition mem_fresh :: "MemStorage \<Rightarrow> bool" where
  "mem_fresh s = list_all (\<lambda>kv. fst kv < currentOpId s) (fileOperations s)"

text \<open>
  The ledger of \<open>s'\<close> is the ledger of \<open>s\<close> followed by new entries, each under the
  repository identifier 0.
\<close>

definition zero_entries :: "MemStorage \<Rightarrow> MemStorage \<Rightarrow> bool" where
  "zero_entries s s' \<longleftrightarrow>
     (\<exists>new. fileOperations s' = fileOperations s @ new \<and>
            (\<forall>kv\<in>set new. repositoryId (snd kv) = 0))"

text \<open>
  The rule of the remote content store (spec, 4.3 step 2 and glossary): a write to a path
  that exists must carry the path's current hash, and a write never removes a path.
  \<open>present w u\<close> says that the resource at URL \<open>u\<close> exists in the store state \<open>w\<close>.
\<close>

definition overwrite_needs_sha :: "'w env \<Rightarrow> ('w \<Rightarrow> string \<Rightarrow> bool) \<Rightarrow> bool" where
  "overwrite_needs_sha e present \<longleftrightarrow>
     (\<forall>req w. req_method req = PUT \<longrightarrow>
        (present w (req_url req) \<and> req_sha req = None \<longrightarrow> \<not> accepted (fst (fetch e req w))) \<and>
        (\<forall>u. present w u \<longrightarrow> present (snd (fetch e req w)) u))"

section \<open>A concrete store and concrete states\<close>

text \<open>
  A small remote store for running the handlers: the state is the list of URLs that exist.
  A write creates a missing path; on a present path it needs a hash. A delete needs a
  present path and a hash. The clock shows the number of paths. The user endpoint knows one
  token.
\<close>

definition store_fetch :: "store_request \<Rightarrow> string list \<Rightarrow> fetch_result \<times> string list" where
  "store_fetch req w =
     (case req_method req of
        PUT \<Rightarrow>
          if req_url req \<in> set w then
            (case req_sha req of
               None \<Rightarrow> (Responded False (JsonObject (Some ''sha was not supplied'') []), w)
             | Some h \<Rightarrow> (Responded True (JsonObject None (req_url req)), w))
          else (Responded True (JsonObject None (req_url req)), w @ [req_url req])
      | DELETE \<Rightarrow>
          if req_url req \<in> set w \<and> req_sha req \<noteq> None
          then (Responded True (JsonObject None []), removeAll (req_url req) w)
          else (Responded False (JsonObject (Some ''Not Found'') []), w))"

definition store_env :: "string list env" where
  "store_env =
     \<lparr>fetch = store_fetch,
      fetch_user = (\<lambda>tok w.
        (if tok = ''ghp_token''
         then UserOk \<lparr>gh_id = 42, login = ''octo'', gh_email = None, avatar_url = ''a.png''\<rparr>
         else UserNotOk, w)),
      now = (\<lambda>w. int (length w))\<rparr>"

text \<open>
  An implementation of the interface whose \<open>createFileOperation\<close> rejects, as the one
  of \<open>DatabaseStorage\<close> does when the database rejects the awaited insert.
\<close>

definition rejectingLedger :: "MemStorage IStorage" where
  "rejectingLedger =
     memStorage\<lparr>createFileOperation := (\<lambda>ins date s. Inl (Error ''connection terminated''))\<rparr>"

definition octo :: User where
  "octo = \<lparr>user_id = 1, githubId = ''42'', username = ''octo'', email = None,
           avatarUrl = Some ''a.png'', accessToken = ''ghp_token'', user_createdAt = 0\<rparr>"

definition mem_octo :: MemStorage where
  "mem_octo = \<lparr>users = [(1, octo)], fileOperations = [], currentUserId = 2, currentOpId = 1\<rparr>"

definition sys_empty :: "(MemStorage, string list) sys" where
  "sys_empty = \<lparr>db = mem_octo, world = [], sent = []\<rparr>"

definition readme_url :: string where
  "readme_url = contents_url ''octo'' ''demo'' ''readme.md''"

definition sys_readme :: "(MemStorage, string list) sys" where
  "sys_readme = \<lparr>db = mem_octo, world = [readme_url], sent = []\<rparr>"

definition one_file :: batch_body where
  "one_file =
     \<lparr>files = FilesArray [Some \<lparr>path = ''readme.md'', content = Some ''aGk=''\<rparr>],
      b_branch = None, b_message = None\<rparr>"

definition two_files :: batch_body where
  "two_files =
     \<lparr>files = FilesArray [Some \<lparr>path = ''readme.md'', content = Some ''aGk=''\<rparr>,
                          Some \<lparr>path = ''src/index.ts'', content = Some ''eA==''\<rparr>],
      b_branch = Some ''main'', b_message = Some ''Upload 2 files''\<rparr>"

text \<open>The body \<open>{files: [{...}, null, {...}]}\<close>.\<close>

definition null_between :: batch_body where
  "null_between =
     \<lparr>files = FilesArray [Some \<lparr>path = ''readme.md'', content = Some ''aGk=''\<rparr>,
                          None,
                          Some \<lparr>path = ''src/index.ts'', content = Some ''eA==''\<rparr>],
      b_branch = None, b_message = None\<rparr>"

text \<open>A ledger with one finished upload, and one with fourteen records of two users.\<close>

definition mem_completed :: MemStorage where
  "mem_completed =
     \<lparr>users = [(1, octo)],
      fileOperations =
        [(1, \<lparr>op_id = 1, userId = 1, repositoryId = 0, operation = ''upload'',
               filePath = ''readme.md'', branch = ''main'', status = ''completed'',
               metadata = None, createdAt = 1\<rparr>)],
      currentUserId = 2, currentOpId = 2\<rparr>"

definition entry :: "nat \<Rightarrow> nat \<Rightarrow> int \<Rightarrow> nat \<times> FileOperation" where
  "entry i uid t =
     (i, \<lparr>op_id = i, userId = uid, repositoryId = 0, operation = ''upload'',
          filePath = ''notes.txt'', branch = ''main'', status = ''completed'',
          metadata = None, createdAt = t\<rparr>)"

definition mem_busy :: MemStorage where
  "mem_busy =
     \<lparr>users = [(1, octo)],
      fileOperations =
        [entry 1 1 10, entry 2 1 20, entry 3 2 30, entry 4 1 40, entry 5 1 40,
         entry 6 1 60, entry 7 1 70, entry 8 2 80, entry 9 1 90, entry 10 1 100,
         entry 11 1 110, entry 12 1 120, entry 13 1 130, entry 14 1 140],
      currentUserId = 2, currentOpId = 15\<rparr>"

definition sys_busy :: "(MemStorage, string list) sys" where
  "sys_busy = \<lparr>db = mem_busy, world = [], sent = []\<rparr>"

text \<open>
  The same ledger at a later moment: the outside world and its clock have moved, requests
  have been sent, a user has signed in.
\<close>

definition sys_later :: "(MemStorage, string list) sys" where
  "sys_later =
     \<lparr>db = mem_busy\<lparr>users := [(1, octo), (2, octo\<lparr>user_id := 2, githubId := ''43''\<rparr>)],
                      currentUserId := 3\<rparr>,
      world = [readme_url],
      sent = [batch_request octo ''octo'' ''demo'' one_file
                \<lparr>path = ''readme.md'', content = Some ''aGk=''\<rparr>]\<rparr>"

section \<open>Running the handlers on concrete inputs\<close>

text \<open>The definitions unfolded when a handler is evaluated on the concrete states.\<close>

lemmas run_defs =
  upload_batch_def upload_one_def do_fetch_def batch_request_def session_userId_def
  memStorage_def mem_getUser_def mem_createFileOperation_def store_env_def store_fetch_def
  or_else_def branch_or_main_def contents_url_def error_message_def
  octo_def mem_octo_def sys_empty_def sys_readme_def readme_url_def one_file_def two_files_def
  null_between_def rejectingLedger_def Let_def

section \<open>The batch loop\<close>

text \<open>
  The four ways one pass of the loop body can end: the write was rejected, the store
  refused it, it was accepted but the logging threw, or it was accepted and logged.
\<close>

lemma upload_one_cases:
  obtains (rejected) t w' where
      "fetch e (batch_request user owner repo body f) (world sy) = (Rejected t, w')"
      "upload_one st e user uid owner repo body f (rs, es, sy) =
         (rs, es @ [\<lparr>e_path = path f, e_error = error_message t\<rparr>],
          sy\<lparr>world := w', sent := sent sy @ [batch_request user owner repo body f]\<rparr>)"
  | (refused) result w' msg where
      "fetch e (batch_request user owner repo body f) (world sy) = (Responded False result, w')"
      "upload_one st e user uid owner repo body f (rs, es, sy) =
         (rs, es @ [\<lparr>e_path = path f, e_error = msg\<rparr>],
          sy\<lparr>world := w', sent := sent sy @ [batch_request user owner repo body f]\<rparr>)"
  | (unlogged) result w' msg where
      "fetch e (batch_request user owner repo body f) (world sy) = (Responded True result, w')"
      "content f = None \<or> (\<exists>ins date t. createFileOperation st ins date (db sy) = Inl t)"
      "upload_one st e user uid owner repo body f (rs, es, sy) =
         (rs @ [\<lparr>r_path = path f, r_result = result\<rparr>],
          es @ [\<lparr>e_path = path f, e_error = msg\<rparr>],
          sy\<lparr>world := w', sent := sent sy @ [batch_request user owner repo body f]\<rparr>)"
  | (logged) result w' ins date fileOp s' where
      "fetch e (batch_request user owner repo body f) (world sy) = (Responded True result, w')"
      "createFileOperation st ins date (db sy) = Inr (fileOp, s')"
      "ins_repositoryId ins = 0"
      "upload_one st e user uid owner repo body f (rs, es, sy) =
         (rs @ [\<lparr>r_path = path f, r_result = result\<rparr>], es,
          sy\<lparr>world := w', sent := sent sy @ [batch_request user owner repo body f],
             db := s'\<rparr>)"
proof (cases "fetch e (batch_request user owner repo body f) (world sy)")
  case (Pair r w')
  show thesis
  proof (cases r)
    case (Rejected t)
    with Pair show thesis
      by (intro rejected[of t w']) (simp_all add: upload_one_def do_fetch_def)
  next
    case (Responded ok result)
    show thesis
    proof (cases ok)
      case False
      with Pair Responded show thesis
        by (cases result) (auto simp: upload_one_def do_fetch_def intro: refused)
    next
      case True
      show thesis
      proof (cases "content f")
        case None
        with Pair Responded True show thesis
          by (intro unlogged[of result w']) (simp_all add: upload_one_def do_fetch_def)
      next
        case (Some c)
        let ?ins = "\<lparr>ins_userId = uid, ins_repositoryId = 0,
                            ins_operation = ''upload'', ins_filePath = path f,
                            ins_branch = branch_or_main (b_branch body),
                            ins_status = Some ''completed'',
                            ins_metadata =
                              Some \<lparr>md_message = b_message body, md_size = Some (length c)\<rparr>\<rparr>"
        show thesis
        proof (cases "createFileOperation st ?ins (now e w') (db sy)")
          case (Inl t)
          then have "\<exists>ins date t. createFileOperation st ins date (db sy) = Inl t"
            by blast
          with Pair Responded True Some Inl show thesis
            by (intro unlogged[of result w']) (simp_all add: upload_one_def do_fetch_def)
        next
          case (Inr p)
          obtain fileOp s' where p: "p = (fileOp, s')" by (cases p)
          from Pair Responded True Some Inr p show thesis
            by (intro logged[of result w' ?ins "now e w'" fileOp s']) (simp_all add: upload_one_def do_fetch_def)
        qed
      qed
    qed
  qed
qed

lemma run_objects_simps [simp]:
  "run_objects st e user uid owner repo body [] acc = acc"
  "run_objects st e user uid owner repo body (f # fs) acc =
     run_objects st e user uid owner repo body fs (upload_one st e user uid owner repo body f acc)"
  by (simp_all add: run_objects_def)

lemma run_objects_append:
  "run_objects st e user uid owner repo body (xs @ ys) acc =
     run_objects st e user uid owner repo body ys (run_objects st e user uid owner repo body xs acc)"
  by (simp add: run_objects_def)

lemma attempted_simps [simp]:
  "attempted [] = []"
  "attempted (None # fs) = []"
  "attempted (Some f # fs) = f # attempted fs"
  by (simp_all add: attempted_def)

lemma attempted_objects [simp]: "attempted (map Some objs) = objs"
  by (induction objs) simp_all

lemma objects_of_attempted: "None \<notin> set fs \<Longrightarrow> map Some (attempted fs) = fs"
proof (induction fs)
  case Nil
  show ?case by simp
next
  case (Cons x fs)
  then show ?case by (cases x) simp_all
qed

text \<open>The loop of the handler: the body iterated up to the first \<open>null\<close>.\<close>

lemma batch_loop_run:
  "batch_loop st e user uid owner repo body fs acc =
     (if None \<in> set fs
      then Escaped (run_objects st e user uid owner repo body (attempted fs) acc)
      else Completed (run_objects st e user uid owner repo body (attempted fs) acc))"
proof (induction fs arbitrary: acc)
  case Nil
  show ?case by simp
next
  case (Cons x fs)
  show ?case
  proof (cases x)
    case None
    then show ?thesis by simp
  next
    case (Some f)
    with Cons.IH[of "upload_one st e user uid owner repo body f acc"] show ?thesis by simp
  qed
qed

lemma upload_one_grows:
  "\<exists>rnew enew sy'.
     upload_one st e user uid owner repo body f (rs, es, sy) = (rs @ rnew, es @ enew, sy') \<and>
     sent sy' = sent sy @ [batch_request user owner repo body f]"
  by (rule upload_one_cases[of e user owner repo body f sy st uid rs es]) auto

lemma upload_one_failure:
  assumes "\<not> accepted (fst (fetch e (batch_request user owner repo body f) (world sy)))"
  shows "\<exists>msg sy'.
     upload_one st e user uid owner repo body f (rs, es, sy) =
       (rs, es @ [\<lparr>e_path = path f, e_error = msg\<rparr>], sy')"
  using assms
  by (rule_tac upload_one_cases[of e user owner repo body f sy st uid rs es])
     (auto simp: accepted_def)

lemma run_objects_grows:
  "\<exists>rnew enew sy'.
     run_objects st e user uid owner repo body fs (rs, es, sy) = (rs @ rnew, es @ enew, sy') \<and>
     sent sy' = sent sy @ map (batch_request user owner repo body) fs"
proof (induction fs arbitrary: rs es sy)
  case Nil
  show ?case by simp
next
  case (Cons f fs)
  obtain rn en sy1 where
    one: "upload_one st e user uid owner repo body f (rs, es, sy) = (rs @ rn, es @ en, sy1)"
    and s1: "sent sy1 = sent sy @ [batch_request user owner repo body f]"
    using upload_one_grows[of st e user uid owner repo body f rs es sy] by blast
  obtain rn' en' sy2 where
    rest: "run_objects st e user uid owner repo body fs (rs @ rn, es @ en, sy1) =
             ((rs @ rn) @ rn', (es @ en) @ en', sy2)"
    and s2: "sent sy2 = sent sy1 @ map (batch_request user owner repo body) fs"
    using Cons.IH[of "rs @ rn" "es @ en" sy1] by blast
  show ?case
    using one rest s1 s2 by simp
qed

section \<open>Batch upload: ledger entries and counts\<close>

text \<open>
  C1. The claim: every attempted write of a batch produces exactly one ledger entry, a
  failed write one with status \<open>failed\<close>. The handler logs inside the \<open>ok\<close> branch
  only. Here a batch of one file goes to a store in which the path already exists; the
  store refuses the write (the request carries no hash), the aggregate is
  \<open>{success: false, uploaded: 0, failed: 1}\<close>, one request went out, and the ledger is
  as empty as before.
\<close>

theorem batch_refused_write_leaves_no_ledger_entry:
  "files one_file = FilesArray [Some \<lparr>path = ''readme.md'', content = Some ''aGk=''\<rparr>] \<and>
   fst (upload_batch memStorage store_env (Some 1) ''octo'' ''demo'' one_file sys_readme) =
     Json \<lparr>success = False, uploaded = 0, failed = 1, results = [],
           errors = [\<lparr>e_path = ''readme.md'', e_error = ''sha was not supplied''\<rparr>]\<rparr>
   \<and> length (sent (snd (upload_batch memStorage store_env (Some 1) ''octo'' ''demo''
                          one_file sys_readme))) = 1
   \<and> fileOperations (db (snd (upload_batch memStorage store_env (Some 1) ''octo'' ''demo''
                                one_file sys_readme))) = []
   \<and> fileOperations (db sys_readme) = []"
  by (simp add: run_defs)

text \<open>
  C2. The claim: \<open>uploaded + failed\<close> is the number of files. The entry is pushed to
  \<open>results\<close> before the operation is logged, and a rejection of the logging call is
  caught by the same \<open>catch\<close> that serves a failed write: the one file of this batch is
  counted as uploaded and as failed.
\<close>

theorem batch_counts_file_twice_when_logging_rejects:
  "files one_file = FilesArray [Some \<lparr>path = ''readme.md'', content = Some ''aGk=''\<rparr>] \<and>
   fst (upload_batch rejectingLedger store_env (Some 1) ''octo'' ''demo'' one_file sys_empty) =
     Json \<lparr>success = False, uploaded = 1, failed = 1,
           results = [\<lparr>r_path = ''readme.md'', r_result = JsonObject None readme_url\<rparr>],
           errors = [\<lparr>e_path = ''readme.md'', e_error = ''connection terminated''\<rparr>]\<rparr>"
  by (simp add: run_defs)

section \<open>Batch upload: partial failure\<close>

text \<open>
  C3. The claim: a failure on one file never aborts the remaining writes and never becomes
  a failure of the whole request. The body of the loop catches what the write of a file
  throws, but its \<open>catch\<close> reads \<open>file.path\<close> again. Here the second of three
  elements is \<open>null\<close>: the exception leaves the loop, the request is answered with
  status 500, the first file has been written and logged, and the third file is never
  sent.
\<close>

theorem batch_null_element_fails_whole_request:
  "files null_between =
     FilesArray [Some \<lparr>path = ''readme.md'', content = Some ''aGk=''\<rparr>, None,
                 Some \<lparr>path = ''src/index.ts'', content = Some ''eA==''\<rparr>] \<and>
   fst (upload_batch memStorage store_env (Some 1) ''octo'' ''demo'' null_between sys_empty) =
     Fail 500 ''Failed to upload files'' \<and>
   map req_url (sent (snd (upload_batch memStorage store_env (Some 1) ''octo'' ''demo''
                             null_between sys_empty))) = [readme_url] \<and>
   map (\<lambda>kv. filePath (snd kv))
     (fileOperations (db (snd (upload_batch memStorage store_env (Some 1) ''octo'' ''demo''
                                 null_between sys_empty)))) = [''readme.md'']"
  by (simp add: run_defs)

text \<open>
  What does hold, when every element of the array is an object: for an authenticated
  request, whatever the storage and the outside world do, the handler answers with the
  aggregate; the requests sent are those of all the files, in input order; and when the
  write of a file is not accepted (the store refuses it or the call throws), the results
  and errors gathered before it are kept and the next entry of \<open>errors\<close> is the one of
  this file.
\<close>

lemma batch_of_objects_continues:
  assumes auth: "session_userId session = Some uid"
    and user: "getUser st uid (db sy) = Inr (Some user)"
    and body: "files body = FilesArray (map Some fs)"
    and ne: "fs \<noteq> []"
  shows "\<exists>agg sy'.
     upload_batch st e session owner repo body sy = (Json agg, sy') \<and>
     sent sy' = sent sy @ map (batch_request user owner repo body) fs \<and>
     (\<forall>pre f post rs1 es1 sy1.
        fs = pre @ f # post \<longrightarrow>
        run_objects st e user uid owner repo body pre ([], [], sy) = (rs1, es1, sy1) \<longrightarrow>
        \<not> accepted (fst (fetch e (batch_request user owner repo body f) (world sy1))) \<longrightarrow>
          take (length rs1) (results agg) = rs1 \<and>
          take (length es1) (errors agg) = es1 \<and>
          length es1 < length (errors agg) \<and>
          e_path (errors agg ! length es1) = path f)"
proof -
  obtain rs es sy' where
    loop: "run_objects st e user uid owner repo body fs ([], [], sy) = (rs, es, sy')"
    and snt: "sent sy' = sent sy @ map (batch_request user owner repo body) fs"
    using run_objects_grows[of st e user uid owner repo body fs "[]" "[]" sy] by auto
  let ?agg = "\<lparr>success = (length es = 0), uploaded = length rs, failed = length es,
               results = rs, errors = es\<rparr>"
  have run: "upload_batch st e session owner repo body sy = (Json ?agg, sy')"
    using auth user body ne loop by (simp add: upload_batch_def batch_loop_run image_iff)
  have each: "take (length rs1) rs = rs1 \<and> take (length es1) es = es1 \<and>
              length es1 < length es \<and> e_path (es ! length es1) = path f"
    if split: "fs = pre @ f # post"
      and pre: "run_objects st e user uid owner repo body pre ([], [], sy) = (rs1, es1, sy1)"
      and bad: "\<not> accepted (fst (fetch e (batch_request user owner repo body f) (world sy1)))"
    for pre f post rs1 es1 sy1
  proof -
    obtain msg sy2 where
      one: "upload_one st e user uid owner repo body f (rs1, es1, sy1) =
              (rs1, es1 @ [\<lparr>e_path = path f, e_error = msg\<rparr>], sy2)"
      using upload_one_failure[OF bad] by blast
    obtain rn en sy3 where
      rest: "run_objects st e user uid owner repo body post
               (rs1, es1 @ [\<lparr>e_path = path f, e_error = msg\<rparr>], sy2) =
             (rs1 @ rn, (es1 @ [\<lparr>e_path = path f, e_error = msg\<rparr>]) @ en, sy3)"
      using run_objects_grows[of st e user uid owner repo body post rs1
              "es1 @ [\<lparr>e_path = path f, e_error = msg\<rparr>]" sy2] by blast
    have "run_objects st e user uid owner repo body fs ([], [], sy) =
            (rs1 @ rn, (es1 @ [\<lparr>e_path = path f, e_error = msg\<rparr>]) @ en, sy3)"
      using split pre one rest by (simp add: run_objects_append)
    with loop have "rs = rs1 @ rn" "es = es1 @ \<lparr>e_path = path f, e_error = msg\<rparr> # en"
      by simp_all
    then show ?thesis by (simp add: nth_append)
  qed
  show ?thesis
    using run snt each by (intro exI[of _ ?agg] exI[of _ sy']) simp
qed

lemma batch_of_objects_continues_example:
  "\<exists>agg sy'.
     upload_batch memStorage store_env (Some 1) ''octo'' ''demo'' two_files sys_readme = (Json agg, sy') \<and>
     length (sent sy') = 2 \<and>
     e_path (errors agg ! 0) = ''readme.md'' \<and>
     map r_path (results agg) = [''src/index.ts'']"
proof -
  let ?f1 = "\<lparr>path = ''readme.md'', content = Some ''aGk=''\<rparr>"
  let ?f2 = "\<lparr>path = ''src/index.ts'', content = Some ''eA==''\<rparr>"
  have h1: "session_userId (Some 1) = Some 1"
    by (simp add: session_userId_def)
  have h2: "getUser memStorage 1 (db sys_readme) = Inr (Some octo)"
    by (simp add: memStorage_def mem_getUser_def sys_readme_def mem_octo_def)
  have h3: "files two_files = FilesArray (map Some [?f1, ?f2])"
    by (simp add: two_files_def)
  have h4: "[?f1, ?f2] \<noteq> []"
    by simp
  obtain agg sy' where
    run: "upload_batch memStorage store_env (Some 1) ''octo'' ''demo'' two_files sys_readme = (Json agg, sy')"
    and snt: "sent sy' = sent sys_readme @ map (batch_request octo ''octo'' ''demo'' two_files) [?f1, ?f2]"
    and each: "\<And>pre f post rs1 es1 sy1.
        [?f1, ?f2] = pre @ f # post \<Longrightarrow>
        run_objects memStorage store_env octo 1 ''octo'' ''demo'' two_files pre ([], [], sys_readme) = (rs1, es1, sy1) \<Longrightarrow>
        \<not> accepted (fst (fetch store_env (batch_request octo ''octo'' ''demo'' two_files f) (world sy1))) \<Longrightarrow>
          e_path (errors agg ! length es1) = path f"
    using batch_of_objects_continues[OF h1 h2 h3 h4, of store_env "''octo''" "''demo''"] by blast
  have "e_path (errors agg ! length ([]::error_item list)) = path ?f1"
    by (rule each[of "[]" ?f1 "[?f2]" "[]" "[]" sys_readme])
       (simp_all add: accepted_def run_defs)
  moreover have "length (sent sy') = 2"
    using snt by (simp add: sys_readme_def)
  moreover have "map r_path (results agg) = [''src/index.ts'']"
    using run by (auto simp add: run_defs)
  ultimately show ?thesis
    using run by simp
qed

section \<open>Batch upload: validation\<close>

text \<open>
  C6. When \<open>files\<close> is missing, not an array or empty, the handler answers with a
  failure and leaves the system state as it was: no request has been sent and the
  storage is unchanged. For an authenticated session of a known user the failure is the
  validation error, status 400.
\<close>

theorem upload_batch_validation:
  assumes "files body = FilesMissing \<or> files body = FilesNotArray \<or> files body = FilesArray []"
  shows "snd (upload_batch st e session owner repo body sy) = sy \<and>
         (\<exists>code msg. fst (upload_batch st e session owner repo body sy) = Fail code msg) \<and>
         (\<forall>uid user. session_userId session = Some uid \<and> getUser st uid (db sy) = Inr (Some user) \<longrightarrow>
            fst (upload_batch st e session owner repo body sy) = Fail 400 ''Files array is required'')"
  using assms
  by (auto simp: upload_batch_def split: option.splits sum.splits)

theorem upload_batch_validation_witness:
  "snd (upload_batch memStorage store_env (Some 1) ''octo'' ''demo''
          \<lparr>files = FilesArray [], b_branch = None, b_message = None\<rparr> sys_empty) = sys_empty \<and>
   fst (upload_batch memStorage store_env (Some 1) ''octo'' ''demo''
          \<lparr>files = FilesArray [], b_branch = None, b_message = None\<rparr> sys_empty) =
     Fail 400 ''Files array is required''"
proof -
  let ?body = "\<lparr>files = FilesArray [], b_branch = None, b_message = None\<rparr>"
  have h: "files ?body = FilesMissing \<or> files ?body = FilesNotArray \<or> files ?body = FilesArray []"
    by simp
  have a: "session_userId (Some 1) = Some 1 \<and> getUser memStorage 1 (db sys_empty) = Inr (Some octo)"
    by (simp add: session_userId_def memStorage_def mem_getUser_def sys_empty_def mem_octo_def)
  show ?thesis
    using upload_batch_validation[OF h, of memStorage store_env "Some 1" "''octo''" "''demo''" sys_empty] a
    by blast
qed

section \<open>Batch upload: no content hash\<close>

lemma batch_request_fields:
  "req_sha (batch_request user owner repo body f) = None"
  "req_method (batch_request user owner repo body f) = PUT"
  "req_url (batch_request user owner repo body f) = contents_url owner repo (path f)"
  by (simp_all add: batch_request_def)

lemma run_objects_present:
  assumes rule: "overwrite_needs_sha e present"
  shows "run_objects st e user uid owner repo body fs (rs, es, sy) = (rs', es', sy') \<Longrightarrow>
         \<forall>u. P u \<longrightarrow> present (world sy) u \<Longrightarrow>
         \<forall>r\<in>set rs'. r \<in> set rs \<or> \<not> P (contents_url owner repo (r_path r))"
proof (induction fs arbitrary: rs es sy)
  case Nil
  then show ?case by simp
next
  case (Cons f fs)
  let ?req = "batch_request user owner repo body f"
  obtain rs1 es1 sy1 where
    one: "upload_one st e user uid owner repo body f (rs, es, sy) = (rs1, es1, sy1)"
    by (cases "upload_one st e user uid owner repo body f (rs, es, sy)") auto
  have keep: "\<forall>u. P u \<longrightarrow> present (snd (fetch e ?req (world sy))) u"
    using rule Cons.prems(2)
    by (simp add: overwrite_needs_sha_def batch_request_fields)
  have refuse: "\<not> accepted (fst (fetch e ?req (world sy)))"
    if "P (contents_url owner repo (path f))"
    using rule Cons.prems(2) that
    by (simp add: overwrite_needs_sha_def batch_request_fields)
  have w1: "world sy1 = snd (fetch e ?req (world sy))"
    and r1: "rs1 = rs \<or> ((\<exists>result. rs1 = rs @ [\<lparr>r_path = path f, r_result = result\<rparr>]) \<and>
                         accepted (fst (fetch e ?req (world sy))))"
    using one
    by (rule_tac [!] upload_one_cases[of e user owner repo body f sy st uid rs es])
       (auto simp: accepted_def)
  have step: "\<forall>u. P u \<longrightarrow> present (world sy1) u"
    using keep w1 by simp
  have rest: "run_objects st e user uid owner repo body fs (rs1, es1, sy1) = (rs', es', sy')"
    using Cons.prems(1) one by simp
  have ih: "\<forall>r\<in>set rs'. r \<in> set rs1 \<or> \<not> P (contents_url owner repo (r_path r))"
    by (rule Cons.IH[OF rest step])
  have new: "\<forall>r\<in>set rs1. r \<in> set rs \<or> \<not> P (contents_url owner repo (r_path r))"
  proof (cases "rs1 = rs")
    case True
    then show ?thesis by simp
  next
    case False
    with r1 obtain result where a: "rs1 = rs @ [\<lparr>r_path = path f, r_result = result\<rparr>]"
      and b: "accepted (fst (fetch e ?req (world sy)))" by blast
    from b refuse have "\<not> P (contents_url owner repo (path f))" by blast
    with a show ?thesis by simp
  qed
  show ?case
  proof
    fix r assume "r \<in> set rs'"
    with ih have "r \<in> set rs1 \<or> \<not> P (contents_url owner repo (r_path r))" by blast
    with new show "r \<in> set rs \<or> \<not> P (contents_url owner repo (r_path r))" by blast
  qed
qed

lemma upload_batch_cases:
  obtains (fail) code msg where
      "upload_batch st e session owner repo body sy = (Fail code msg, sy)"
  | (escaped) uid user fs rs es sy' where
      "files body = FilesArray fs" "None \<in> set fs"
      "run_objects st e user uid owner repo body (attempted fs) ([], [], sy) = (rs, es, sy')"
      "upload_batch st e session owner repo body sy = (Fail 500 ''Failed to upload files'', sy')"
  | (run) uid user fs rs es sy' where
      "session_userId session = Some uid"
      "getUser st uid (db sy) = Inr (Some user)"
      "files body = FilesArray (map Some fs)" "fs \<noteq> []"
      "run_objects st e user uid owner repo body fs ([], [], sy) = (rs, es, sy')"
      "upload_batch st e session owner repo body sy =
         (Json \<lparr>success = (length es = 0), uploaded = length rs, failed = length es,
                results = rs, errors = es\<rparr>, sy')"
proof (cases "session_userId session")
  case None
  then show thesis by (intro fail[of 401 "''Not authenticated''"]) (simp add: upload_batch_def)
next
  case (Some uid)
  show thesis
  proof (cases "getUser st uid (db sy)")
    case (Inl t)
    with Some show thesis
      by (intro fail[of 500 "''Failed to upload files''"]) (simp add: upload_batch_def)
  next
    case (Inr uo)
    show thesis
    proof (cases uo)
      case None
      with Some Inr show thesis
        by (intro fail[of 404 "''User not found''"]) (simp add: upload_batch_def)
    next
      case user: (Some user)
      show thesis
      proof (cases "\<exists>fs. files body = FilesArray fs \<and> fs \<noteq> []")
        case False
        with Some Inr user show thesis
          by (intro fail[of 400 "''Files array is required''"])
             (auto simp: upload_batch_def split: files_field.splits)
      next
        case True
        then obtain fs where fs: "files body = FilesArray fs" "fs \<noteq> []" by blast
        obtain rs es sy' where
          loop: "run_objects st e user uid owner repo body (attempted fs) ([], [], sy) =
                   (rs, es, sy')"
          by (cases "run_objects st e user uid owner repo body (attempted fs) ([], [], sy)") auto
        show thesis
        proof (cases "None \<in> set fs")
          case True
          with Some Inr user fs loop show thesis
            by (intro escaped[of fs user uid rs es sy'])
               (simp_all add: upload_batch_def batch_loop_run)
        next
          case False
          then have objs: "map Some (attempted fs) = fs"
            by (rule objects_of_attempted)
          with fs have ne: "attempted fs \<noteq> []" by auto
          from Some Inr user fs loop False objs ne show thesis
            by (intro run[of uid user "attempted fs" rs es sy'])
               (simp_all add: upload_batch_def batch_loop_run)
        qed
      qed
    qed
  qed
qed

lemma put_contents_sent:
  assumes "session_userId session = Some uid" "getUser st uid (db sy) = Inr (Some user)"
  shows "sent (snd (put_contents st e session owner repo fp pb sy)) =
           sent sy @ [put_request user owner repo fp pb]"
proof (cases "fetch e (put_request user owner repo fp pb) (world sy)")
  case (Pair r w')
  show ?thesis
  proof (cases r)
    case (Rejected t)
    with Pair assms show ?thesis by (simp add: put_contents_def do_fetch_def)
  next
    case (Responded ok result)
    with Pair assms show ?thesis
      by (simp add: put_contents_def do_fetch_def split: option.splits sum.splits prod.splits)
  qed
qed

lemma store_env_needs_sha: "overwrite_needs_sha store_env (\<lambda>w u. u \<in> set w)"
  unfolding overwrite_needs_sha_def
proof (intro allI impI conjI)
  fix req :: store_request and w :: "string list"
  assume "req_method req = PUT"
  assume "req_url req \<in> set w \<and> req_sha req = None"
  then show "\<not> accepted (fst (fetch store_env req w))"
    using \<open>req_method req = PUT\<close> by (simp add: store_env_def store_fetch_def accepted_def)
next
  fix req :: store_request and w :: "string list" and u
  assume "req_method req = PUT" "u \<in> set w"
  then show "u \<in> set (snd (fetch store_env req w))"
    by (simp add: store_env_def store_fetch_def split: option.splits)
qed

text \<open>
  C9. Every request the batch handler sends is a \<open>PUT\<close> without a \<open>sha\<close>,
  whatever the request body holds, whereas the single-file route forwards a (non-empty)
  \<open>sha\<close> it was given. Hence, against a store that keeps the overwrite rule, every
  file the batch reports as uploaded has a path that did not exist when the batch began.
\<close>

theorem batch_requests_carry_no_sha:
  "(\<exists>new. sent (snd (upload_batch st e session owner repo body sy)) = sent sy @ new \<and>
          (\<forall>req\<in>set new. req_method req = PUT \<and> req_sha req = None)) \<and>
   (session_userId session = Some uid \<longrightarrow> getUser st uid (db sy) = Inr (Some user) \<longrightarrow>
      p_sha pb = Some h \<longrightarrow> h \<noteq> [] \<longrightarrow>
      (\<exists>req. sent (snd (put_contents st e session owner repo fp pb sy)) = sent sy @ [req] \<and>
             req_method req = PUT \<and> req_sha req = Some h)) \<and>
   (overwrite_needs_sha e present \<longrightarrow>
      upload_batch st e session owner repo body sy = (Json agg, sy') \<longrightarrow>
      (\<forall>r\<in>set (results agg). \<not> present (world sy) (contents_url owner repo (r_path r))))"
proof (intro conjI impI)
  show "\<exists>new. sent (snd (upload_batch st e session owner repo body sy)) = sent sy @ new \<and>
          (\<forall>req\<in>set new. req_method req = PUT \<and> req_sha req = None)"
  proof (cases rule: upload_batch_cases[of st e session owner repo body sy])
    case (fail code msg)
    then show ?thesis by simp
  next
    case (escaped u v fs rs es sy2)
    obtain rn en sy3 where
      "run_objects st e v u owner repo body (attempted fs) ([], [], sy) =
         ([] @ rn, [] @ en, sy3)"
      "sent sy3 = sent sy @ map (batch_request v owner repo body) (attempted fs)"
      using run_objects_grows[of st e v u owner repo body "attempted fs" "[]" "[]" sy] by blast
    with escaped have "sent (snd (upload_batch st e session owner repo body sy)) =
                     sent sy @ map (batch_request v owner repo body) (attempted fs)"
      by simp
    then show ?thesis
      by (intro exI[of _ "map (batch_request v owner repo body) (attempted fs)"])
         (simp add: batch_request_fields)
  next
    case (run u v fs rs es sy2)
    obtain rn en sy3 where
      "run_objects st e v u owner repo body fs ([], [], sy) = ([] @ rn, [] @ en, sy3)"
      "sent sy3 = sent sy @ map (batch_request v owner repo body) fs"
      using run_objects_grows[of st e v u owner repo body fs "[]" "[]" sy] by blast
    with run have "sent (snd (upload_batch st e session owner repo body sy)) =
                     sent sy @ map (batch_request v owner repo body) fs"
      by simp
    then show ?thesis
      by (intro exI[of _ "map (batch_request v owner repo body) fs"])
         (simp add: batch_request_fields)
  qed
next
  assume "session_userId session = Some uid" "getUser st uid (db sy) = Inr (Some user)"
    "p_sha pb = Some h" "h \<noteq> []"
  then show "\<exists>req. sent (snd (put_contents st e session owner repo fp pb sy)) = sent sy @ [req] \<and>
             req_method req = PUT \<and> req_sha req = Some h"
    using put_contents_sent[of session uid st sy user e owner repo fp pb]
    by (simp add: put_request_def if_truthy_def)
next
  assume rule: "overwrite_needs_sha e present"
    and res: "upload_batch st e session owner repo body sy = (Json agg, sy')"
  show "\<forall>r\<in>set (results agg). \<not> present (world sy) (contents_url owner repo (r_path r))"
  proof (cases rule: upload_batch_cases[of st e session owner repo body sy])
    case (fail code msg)
    with res show ?thesis by simp
  next
    case (escaped u v fs rs es sy2)
    with res show ?thesis by simp
  next
    case (run u v fs rs es sy2)
    have pre: "\<forall>u. present (world sy) u \<longrightarrow> present (world sy) u"
      by simp
    have sub: "\<forall>r\<in>set rs. r \<in> set [] \<or> \<not> present (world sy) (contents_url owner repo (r_path r))"
      by (rule run_objects_present[OF rule run(5), of "present (world sy)", OF pre])
    from run(6) res have agg: "results agg = rs"
      by (cases agg) simp
    show ?thesis
      using sub agg by simp
  qed
qed

theorem batch_requests_carry_no_sha_witness:
  "(\<exists>new. sent (snd (upload_batch memStorage store_env (Some 1) ''octo'' ''demo'' two_files sys_readme)) =
            sent sys_readme @ new \<and>
          (\<forall>req\<in>set new. req_method req = PUT \<and> req_sha req = None)) \<and>
   (\<exists>req. sent (snd (put_contents memStorage store_env (Some 1) ''octo'' ''demo'' ''readme.md''
                       \<lparr>p_content = Some ''aGk='', p_message = None, p_branch = None,
                        p_sha = Some ''3b18e5''\<rparr> sys_readme)) = sent sys_readme @ [req] \<and>
          req_method req = PUT \<and> req_sha req = Some ''3b18e5'') \<and>
   (\<exists>agg sy'. upload_batch memStorage store_env (Some 1) ''octo'' ''demo'' two_files sys_readme =
               (Json agg, sy') \<and>
             map r_path (results agg) = [''src/index.ts''] \<and>
             (\<forall>r\<in>set (results agg).
                contents_url ''octo'' ''demo'' (r_path r) \<notin> set (world sys_readme)))"
proof -
  let ?pb = "\<lparr>p_content = Some ''aGk='', p_message = None, p_branch = None,
              p_sha = Some ''3b18e5''\<rparr>"
  obtain agg sy' where
    run: "upload_batch memStorage store_env (Some 1) ''octo'' ''demo'' two_files sys_readme =
            (Json agg, sy')"
    and paths: "map r_path (results agg) = [''src/index.ts'']"
    by (simp add: run_defs)
  have h1: "session_userId (Some 1) = Some 1"
    by (simp add: session_userId_def)
  have h2: "getUser memStorage 1 (db sys_readme) = Inr (Some octo)"
    by (simp add: memStorage_def mem_getUser_def sys_readme_def mem_octo_def)
  have h3: "p_sha ?pb = Some ''3b18e5''" "''3b18e5'' \<noteq> []"
    by simp_all
  note inst = batch_requests_carry_no_sha[where st = memStorage and e = store_env
        and session = "Some 1" and owner = "''octo''" and repo = "''demo''"
        and body = two_files and sy = sys_readme and uid = 1 and user = octo
        and pb = ?pb and h = "''3b18e5''" and fp = "''readme.md''"
        and present = "\<lambda>w u. u \<in> set w" and agg = agg and sy' = sy']
  have a: "\<exists>new. sent (snd (upload_batch memStorage store_env (Some 1) ''octo'' ''demo'' two_files sys_readme)) =
            sent sys_readme @ new \<and>
          (\<forall>req\<in>set new. req_method req = PUT \<and> req_sha req = None)"
    by (rule inst[THEN conjunct1])
  have b: "\<exists>req. sent (snd (put_contents memStorage store_env (Some 1) ''octo'' ''demo'' ''readme.md''
                       ?pb sys_readme)) = sent sys_readme @ [req] \<and>
          req_method req = PUT \<and> req_sha req = Some ''3b18e5''"
    by (rule inst[THEN conjunct2, THEN conjunct1, THEN mp, OF h1, THEN mp, OF h2,
          THEN mp, OF h3(1), THEN mp, OF h3(2)])
  have c: "\<forall>r\<in>set (results agg).
                contents_url ''octo'' ''demo'' (r_path r) \<notin> set (world sys_readme)"
    by (rule inst[THEN conjunct2, THEN conjunct2, THEN mp, OF store_env_needs_sha,
          THEN mp, OF run])
  have d: "\<exists>agg sy'. upload_batch memStorage store_env (Some 1) ''octo'' ''demo'' two_files sys_readme =
               (Json agg, sy') \<and>
             map r_path (results agg) = [''src/index.ts''] \<and>
             (\<forall>r\<in>set (results agg).
                contents_url ''octo'' ''demo'' (r_path r) \<notin> set (world sys_readme))"
    by (intro exI[of _ agg] exI[of _ sy'] conjI run paths c)
  show ?thesis by (intro conjI a b d)
qed

section \<open>The repository identifier of logged operations\<close>

lemma update_fresh_key:
  "k \<notin> fst ` set al \<Longrightarrow> AList.update k v al = al @ [(k, v)]"
  by (induction al) auto

lemma mem_fresh_key: "mem_fresh s \<Longrightarrow> currentOpId s \<notin> fst ` set (fileOperations s)"
  by (auto simp: mem_fresh_def list_all_iff)

lemma mem_create_appends:
  assumes "mem_fresh s"
  shows "fileOperations (snd (mem_createFileOperation ins d s)) =
           fileOperations s @ [(currentOpId s, fst (mem_createFileOperation ins d s))]"
    and "mem_fresh (snd (mem_createFileOperation ins d s))"
  using assms mem_fresh_key[OF assms]
  by (auto simp: mem_createFileOperation_def Let_def update_fresh_key mem_fresh_def list_all_iff)

lemma mem_create_fields:
  "repositoryId (fst (mem_createFileOperation ins d s)) = ins_repositoryId ins"
  "operation (fst (mem_createFileOperation ins d s)) = ins_operation ins"
  by (simp_all add: mem_createFileOperation_def Let_def)

lemma memStorage_create:
  "createFileOperation memStorage ins d s = Inr (mem_createFileOperation ins d s)"
  by (simp add: memStorage_def)

lemma zero_entries_refl: "zero_entries s s"
  by (simp add: zero_entries_def)

lemma zero_entries_trans: "zero_entries s s' \<Longrightarrow> zero_entries s' s'' \<Longrightarrow> zero_entries s s''"
  unfolding zero_entries_def
proof -
  assume "\<exists>new. fileOperations s' = fileOperations s @ new \<and> (\<forall>kv\<in>set new. repositoryId (snd kv) = 0)"
    and "\<exists>new. fileOperations s'' = fileOperations s' @ new \<and> (\<forall>kv\<in>set new. repositoryId (snd kv) = 0)"
  then obtain n1 n2 where
    "fileOperations s' = fileOperations s @ n1" "\<forall>kv\<in>set n1. repositoryId (snd kv) = 0"
    "fileOperations s'' = fileOperations s' @ n2" "\<forall>kv\<in>set n2. repositoryId (snd kv) = 0"
    by blast
  then have "fileOperations s'' = fileOperations s @ (n1 @ n2) \<and>
             (\<forall>kv\<in>set (n1 @ n2). repositoryId (snd kv) = 0)"
    by auto
  then show "\<exists>new. fileOperations s'' = fileOperations s @ new \<and> (\<forall>kv\<in>set new. repositoryId (snd kv) = 0)"
    by blast
qed

lemma zero_entries_create:
  assumes "mem_fresh s" "ins_repositoryId ins = 0"
  shows "zero_entries s (snd (mem_createFileOperation ins d s))"
  unfolding zero_entries_def
  using mem_create_appends(1)[OF assms(1), of ins d] assms(2)
  by (intro exI[of _ "[(currentOpId s, fst (mem_createFileOperation ins d s))]"])
     (simp add: mem_create_fields)

lemma upload_one_ledger:
  assumes "mem_fresh (db sy)"
    and "upload_one memStorage e user uid owner repo body f (rs, es, sy) = (rs', es', sy')"
  shows "mem_fresh (db sy') \<and> zero_entries (db sy) (db sy')"
proof (cases rule: upload_one_cases[of e user owner repo body f sy memStorage uid rs es])
  case (rejected t w')
  with assms show ?thesis by (auto simp: zero_entries_refl)
next
  case (refused result w' msg)
  with assms show ?thesis by (auto simp: zero_entries_refl)
next
  case (unlogged result w' msg)
  with assms show ?thesis by (auto simp: zero_entries_refl)
next
  case (logged result w' ins date fileOp s')
  from logged(2) have s': "s' = snd (mem_createFileOperation ins date (db sy))"
    by (simp add: memStorage_create)
  from logged(4) assms(2) have "db sy' = s'" by auto
  with s' assms(1) logged(3) show ?thesis
    by (simp add: mem_create_appends(2) zero_entries_create)
qed

lemma run_objects_ledger:
  "mem_fresh (db sy) \<Longrightarrow>
   run_objects memStorage e user uid owner repo body fs (rs, es, sy) = (rs', es', sy') \<Longrightarrow>
   mem_fresh (db sy') \<and> zero_entries (db sy) (db sy')"
proof (induction fs arbitrary: rs es sy)
  case Nil
  then show ?case by (simp add: zero_entries_refl)
next
  case (Cons f fs)
  obtain rs1 es1 sy1 where
    one: "upload_one memStorage e user uid owner repo body f (rs, es, sy) = (rs1, es1, sy1)"
    by (cases "upload_one memStorage e user uid owner repo body f (rs, es, sy)") auto
  from upload_one_ledger[OF Cons.prems(1) one]
  have f1: "mem_fresh (db sy1)" and z1: "zero_entries (db sy) (db sy1)" by simp_all
  have rest: "run_objects memStorage e user uid owner repo body fs (rs1, es1, sy1) = (rs', es', sy')"
    using Cons.prems(2) one by simp
  from Cons.IH[OF f1 rest] z1 show ?case
    by (blast intro: zero_entries_trans)
qed


lemma put_contents_ledger:
  assumes "mem_fresh (db sy)"
  shows "zero_entries (db sy) (db (snd (put_contents memStorage e session owner repo fp pb sy)))"
proof -
  have "zero_entries (db sy) (db sy)" by (rule zero_entries_refl)
  moreover have "zero_entries (db sy) s'"
    if "mem_createFileOperation ins d (db sy) = (fileOp, s')" "ins_repositoryId ins = 0"
    for ins d fileOp s'
    using zero_entries_create[OF assms that(2), of d] that(1) by simp
  ultimately show ?thesis
    by (auto simp add: put_contents_def do_fetch_def memStorage_create
          split: option.splits sum.splits prod.splits fetch_result.splits)
qed

lemma delete_contents_ledger:
  assumes "mem_fresh (db sy)"
  shows "zero_entries (db sy) (db (snd (delete_contents memStorage e session owner repo fp dl sy)))"
proof -
  have "zero_entries (db sy) (db sy)" by (rule zero_entries_refl)
  moreover have "zero_entries (db sy) s'"
    if "mem_createFileOperation ins d (db sy) = (fileOp, s')" "ins_repositoryId ins = 0"
    for ins d fileOp s'
    using zero_entries_create[OF assms that(2), of d] that(1) by simp
  ultimately show ?thesis
    by (auto simp add: delete_contents_def do_fetch_def memStorage_create
          split: option.splits sum.splits prod.splits fetch_result.splits)
qed

lemma upload_batch_ledger:
  assumes "mem_fresh (db sy)"
  shows "zero_entries (db sy) (db (snd (upload_batch memStorage e session owner repo body sy)))"
proof (cases rule: upload_batch_cases[of memStorage e session owner repo body sy])
  case (fail code msg)
  then show ?thesis by (simp add: zero_entries_refl)
next
  case (escaped uid user fs rs es sy')
  from run_objects_ledger[OF assms escaped(3)] escaped(4) show ?thesis by simp
next
  case (run uid user fs rs es sy')
  from run_objects_ledger[OF assms run(5)] run(6) show ?thesis by simp
qed

text \<open>
  C8. Starting from a \<open>MemStorage\<close> whose counter is fresh, each of the three routes
  that log (single-file upload, single-file delete, batch upload) leaves the ledger as it
  was, followed by the records it created, and each of these records has
  \<open>repositoryId\<close> 0: the literal the handlers pass, not the id of the target repository.
\<close>

theorem operations_logged_under_repository_zero:
  assumes "mem_fresh (db sy)"
  shows "zero_entries (db sy) (db (snd (put_contents memStorage e session owner repo fp pb sy))) \<and>
         zero_entries (db sy) (db (snd (delete_contents memStorage e session owner repo fp dl sy))) \<and>
         zero_entries (db sy) (db (snd (upload_batch memStorage e session owner repo body sy)))"
  using assms
  by (intro conjI put_contents_ledger delete_contents_ledger upload_batch_ledger)

theorem operations_logged_under_repository_zero_witness:
  "mem_fresh (db sys_empty) \<and>
   zero_entries (db sys_empty)
     (db (snd (put_contents memStorage store_env (Some 1) ''octo'' ''demo'' ''readme.md''
                 \<lparr>p_content = Some ''aGk='', p_message = None, p_branch = None, p_sha = None\<rparr>
                 sys_empty))) \<and>
   map (\<lambda>kv. repositoryId (snd kv))
     (fileOperations (db (snd (put_contents memStorage store_env (Some 1) ''octo'' ''demo''
         ''readme.md''
         \<lparr>p_content = Some ''aGk='', p_message = None, p_branch = None, p_sha = None\<rparr>
         sys_empty)))) = [0] \<and>
   zero_entries (db sys_empty)
     (db (snd (delete_contents memStorage store_env (Some 1) ''octo'' ''demo'' ''readme.md''
                 \<lparr>d_message = None, d_branch = None, d_sha = None\<rparr> sys_empty))) \<and>
   map (\<lambda>kv. (repositoryId (snd kv), status (snd kv)))
     (fileOperations (db (snd (delete_contents memStorage store_env (Some 1) ''octo'' ''demo''
         ''readme.md'' \<lparr>d_message = None, d_branch = None, d_sha = None\<rparr> sys_empty)))) =
     [(0, ''failed'')] \<and>
   zero_entries (db sys_empty)
     (db (snd (upload_batch memStorage store_env (Some 1) ''octo'' ''demo'' two_files sys_empty))) \<and>
   map (\<lambda>kv. repositoryId (snd kv))
     (fileOperations (db (snd (upload_batch memStorage store_env (Some 1) ''octo'' ''demo''
         two_files sys_empty)))) = [0, 0]"
proof -
  have fresh: "mem_fresh (db sys_empty)"
    by (simp add: mem_fresh_def sys_empty_def mem_octo_def)
  note inst = operations_logged_under_repository_zero[OF fresh, of store_env "Some 1"
      "''octo''" "''demo''" "''readme.md''"
      "\<lparr>p_content = Some ''aGk='', p_message = None, p_branch = None, p_sha = None\<rparr>"
      "\<lparr>d_message = None, d_branch = None, d_sha = None\<rparr>" two_files]
  have p: "map (\<lambda>kv. repositoryId (snd kv))
     (fileOperations (db (snd (put_contents memStorage store_env (Some 1) ''octo'' ''demo''
         ''readme.md''
         \<lparr>p_content = Some ''aGk='', p_message = None, p_branch = None, p_sha = None\<rparr>
         sys_empty)))) = [0]"
    by (simp add: put_contents_def put_request_def if_truthy_def run_defs)
  have d: "map (\<lambda>kv. (repositoryId (snd kv), status (snd kv)))
     (fileOperations (db (snd (delete_contents memStorage store_env (Some 1) ''octo'' ''demo''
         ''readme.md'' \<lparr>d_message = None, d_branch = None, d_sha = None\<rparr> sys_empty)))) =
     [(0, ''failed'')]"
    by (simp add: delete_contents_def delete_request_def run_defs)
  have b: "map (\<lambda>kv. repositoryId (snd kv))
     (fileOperations (db (snd (upload_batch memStorage store_env (Some 1) ''octo'' ''demo''
         two_files sys_empty)))) = [0, 0]"
    by (simp add: run_defs)
  show ?thesis
    by (intro conjI fresh p d b inst[THEN conjunct1] inst[THEN conjunct2, THEN conjunct1]
          inst[THEN conjunct2, THEN conjunct2])
qed

section \<open>The activity query\<close>

lemma recent_sorted:
  "sorted_wrt (\<lambda>a b. createdAt b \<le> createdAt a) (sort_key (\<lambda>op. - createdAt op) xs)"
proof -
  have "sorted (map (\<lambda>op. - createdAt op) (sort_key (\<lambda>op. - createdAt op) xs))"
    by (rule sorted_sort_key)
  then show ?thesis
    by (simp add: sorted_map)
qed

lemma sorted_wrt_take_drop:
  assumes "sorted_wrt R xs" "x \<in> set (take n xs)" "y \<in> set (drop n xs)"
  shows "R x y"
proof -
  have "sorted_wrt R (take n xs @ drop n xs)" using assms(1) by simp
  then show ?thesis using assms(2,3) unfolding sorted_wrt_append by blast
qed

lemma mset_take_drop: "mset (take n xs) + mset (drop n xs) = mset xs"
proof -
  have "mset (take n xs @ drop n xs) = mset xs" by simp
  then show ?thesis by (simp only: mset_append)
qed

text \<open>
  C5. For an authenticated session, \<open>GET /api/activity\<close> on \<open>MemStorage\<close> answers
  with the 10 most recent records of the session's user, or with all of them when there
  are fewer: the answer is a selection from the user's records (as a multiset, so no
  record is repeated or invented) of that size, ordered by \<open>createdAt\<close> descending, and
  every record of the user that is left out is no newer than any record returned. No
  record of another user appears.
\<close>

theorem activity_most_recent_ten:
  assumes "session_userId session = Some uid"
  shows "\<exists>ops. get_activity memStorage session sy = (Json ops, sy) \<and>
           length ops \<le> 10 \<and>
           length ops = min 10 (length (records_of uid (db sy))) \<and>
           mset ops \<subseteq># mset (records_of uid (db sy)) \<and>
           (\<forall>op\<in>set ops. userId op = uid \<and> op \<in> snd ` set (fileOperations (db sy))) \<and>
           sorted_wrt (\<lambda>a b. createdAt b \<le> createdAt a) ops \<and>
           (\<forall>other\<in>#mset (records_of uid (db sy)) - mset ops.
              \<forall>op\<in>set ops. createdAt other \<le> createdAt op) \<and>
           (\<forall>other\<in>snd ` set (fileOperations (db sy)).
              userId other = uid \<and> other \<notin> set ops \<longrightarrow>
                length ops = 10 \<and> (\<forall>op\<in>set ops. createdAt other \<le> createdAt op))"
proof -
  let ?mine = "records_of uid (db sy)"
  let ?sorted = "sort_key (\<lambda>op. - createdAt op) ?mine"
  let ?ops = "take 10 ?sorted"
  have run: "get_activity memStorage session sy = (Json ?ops, sy)"
    using assms
    by (simp add: get_activity_def memStorage_def mem_getUserFileOperations_def records_of_def)
  have len: "length ?ops \<le> 10" by simp
  have len': "length ?ops = min 10 (length ?mine)" by simp
  have all: "mset ?ops + mset (drop 10 ?sorted) = mset ?mine"
    by (simp only: mset_take_drop mset_sort)
  then have sub: "mset ?ops \<subseteq># mset ?mine"
    by (metis mset_subset_eq_add_left)
  from all have left: "mset ?mine - mset ?ops = mset (drop 10 ?sorted)"
    by (metis add_diff_cancel_left')
  have mem: "\<forall>op\<in>set ?ops. userId op = uid \<and> op \<in> snd ` set (fileOperations (db sy))"
  proof
    fix op assume "op \<in> set ?ops"
    then have "op \<in> set ?sorted" by (rule in_set_takeD)
    then have "op \<in> set ?mine" by simp
    then show "userId op = uid \<and> op \<in> snd ` set (fileOperations (db sy))"
      by (auto simp: records_of_def)
  qed
  have srt: "sorted_wrt (\<lambda>a b. createdAt b \<le> createdAt a) ?ops"
    by (rule sorted_wrt_take[OF recent_sorted])
  have older: "\<forall>other\<in>#mset ?mine - mset ?ops. \<forall>op\<in>set ?ops. createdAt other \<le> createdAt op"
  proof (intro ballI)
    fix other op
    assume "other \<in># mset ?mine - mset ?ops" and o: "op \<in> set ?ops"
    with left have d: "other \<in> set (drop 10 ?sorted)" by simp
    from sorted_wrt_take_drop[OF recent_sorted o d]
    show "createdAt other \<le> createdAt op" .
  qed
  have rest: "\<forall>other\<in>snd ` set (fileOperations (db sy)).
              userId other = uid \<and> other \<notin> set ?ops \<longrightarrow>
                length ?ops = 10 \<and> (\<forall>op\<in>set ?ops. createdAt other \<le> createdAt op)"
  proof (intro ballI impI)
    fix other
    assume o: "other \<in> snd ` set (fileOperations (db sy))"
      and u: "userId other = uid \<and> other \<notin> set ?ops"
    from o u have "other \<in> set ?sorted" by (auto simp: records_of_def)
    then have "other \<in> set (take 10 ?sorted) \<union> set (drop 10 ?sorted)"
      by (simp only: set_append[symmetric] append_take_drop_id)
    with u have d: "other \<in> set (drop 10 ?sorted)" by blast
    then have "drop 10 ?sorted \<noteq> []" by auto
    then have l: "length ?ops = 10" by simp
    have "\<forall>op\<in>set ?ops. createdAt other \<le> createdAt op"
    proof
      fix op assume "op \<in> set ?ops"
      from sorted_wrt_take_drop[OF recent_sorted this d]
      show "createdAt other \<le> createdAt op" .
    qed
    with l show "length ?ops = 10 \<and> (\<forall>op\<in>set ?ops. createdAt other \<le> createdAt op)" by simp
  qed
  show ?thesis
    by (intro exI[of _ ?ops] conjI run len len' sub mem srt older rest)
qed

theorem activity_most_recent_ten_witness:
  "\<exists>ops. get_activity memStorage (Some 1) sys_busy = (Json ops, sys_busy) \<and>
         map op_id ops = [14, 13, 12, 11, 10, 9, 7, 6, 4, 5] \<and>
         map op_id (records_of 1 (db sys_busy)) = [1, 2, 4, 5, 6, 7, 9, 10, 11, 12, 13, 14] \<and>
         mset ops \<subseteq># mset (records_of 1 (db sys_busy)) \<and>
         sorted_wrt (\<lambda>a b. createdAt b \<le> createdAt a) ops"
proof -
  have h: "session_userId (Some 1) = Some 1"
    by (simp add: session_userId_def)
  obtain ops where
    run: "get_activity memStorage (Some 1) sys_busy = (Json ops, sys_busy)"
    and sub: "mset ops \<subseteq># mset (records_of 1 (db sys_busy))"
    and srt: "sorted_wrt (\<lambda>a b. createdAt b \<le> createdAt a) ops"
    using activity_most_recent_ten[OF h, of sys_busy] by blast
  have "get_activity memStorage (Some 1) sys_busy =
          (Json (map snd [entry 14 1 140, entry 13 1 130, entry 12 1 120, entry 11 1 110,
                          entry 10 1 100, entry 9 1 90, entry 7 1 70, entry 6 1 60,
                          entry 4 1 40, entry 5 1 40]), sys_busy)"
    by (simp add: get_activity_def session_userId_def memStorage_def
          mem_getUserFileOperations_def sys_busy_def mem_busy_def entry_def)
  with run have ids: "map op_id ops = [14, 13, 12, 11, 10, 9, 7, 6, 4, 5]"
    by (simp add: entry_def)
  have mine: "map op_id (records_of 1 (db sys_busy)) = [1, 2, 4, 5, 6, 7, 9, 10, 11, 12, 13, 14]"
    by (simp add: records_of_def sys_busy_def mem_busy_def entry_def)
  show ?thesis by (intro exI[of _ ops] conjI run ids mine sub srt)
qed

text \<open>
  C7. On \<open>MemStorage\<close> the activity query reads only and is a function of the ledger:
  it returns the system state it was given; in any two states with the same ledger it
  gives the same response, whatever else differs (the outside world and its clock, the
  requests sent, the users, the counters); so asking again after the first query, with no
  operation on the ledger in between, gives the same records in the same order.
\<close>

theorem activity_requery_identical:
  "snd (get_activity memStorage session sy) = sy \<and>
   (fileOperations (db sy2) = fileOperations (db sy) \<longrightarrow>
      fst (get_activity memStorage session sy2) = fst (get_activity memStorage session sy)) \<and>
   get_activity memStorage session
       ((snd (get_activity memStorage session sy))\<lparr>world := w', sent := snt'\<rparr>) =
     (fst (get_activity memStorage session sy), sy\<lparr>world := w', sent := snt'\<rparr>)"
proof (cases "session_userId session")
  case None
  then show ?thesis by (simp add: get_activity_def)
next
  case (Some uid)
  then show ?thesis
    by (simp add: get_activity_def memStorage_def mem_getUserFileOperations_def)
qed

theorem activity_requery_identical_witness:
  "fileOperations (db sys_later) = fileOperations (db sys_busy) \<and>
   world sys_later \<noteq> world sys_busy \<and> users (db sys_later) \<noteq> users (db sys_busy) \<and>
   fst (get_activity memStorage (Some 1) sys_later) =
     fst (get_activity memStorage (Some 1) sys_busy) \<and>
   snd (get_activity memStorage (Some 1) sys_busy) = sys_busy \<and>
   (\<exists>ops. fst (get_activity memStorage (Some 1) sys_busy) = Json ops \<and>
          map op_id ops = [14, 13, 12, 11, 10, 9, 7, 6, 4, 5])"
proof -
  note inst = activity_requery_identical[where session = "Some 1" and sy = sys_busy
      and ?sy2.0 = sys_later and w' = "[]" and snt' = "[]"]
  have same: "fileOperations (db sys_later) = fileOperations (db sys_busy)"
    by (simp add: sys_later_def sys_busy_def)
  have w: "world sys_later \<noteq> world sys_busy"
    by (simp add: sys_later_def sys_busy_def)
  have u: "users (db sys_later) \<noteq> users (db sys_busy)"
    by (simp add: sys_later_def sys_busy_def mem_busy_def)
  have eq: "fst (get_activity memStorage (Some 1) sys_later) =
              fst (get_activity memStorage (Some 1) sys_busy)"
    by (rule inst[THEN conjunct2, THEN conjunct1, THEN mp, OF same])
  have ro: "snd (get_activity memStorage (Some 1) sys_busy) = sys_busy"
    by (rule inst[THEN conjunct1])
  have ids: "\<exists>ops. fst (get_activity memStorage (Some 1) sys_busy) = Json ops \<and>
          map op_id ops = [14, 13, 12, 11, 10, 9, 7, 6, 4, 5]"
    by (simp add: get_activity_def session_userId_def memStorage_def
          mem_getUserFileOperations_def sys_busy_def mem_busy_def entry_def)
  show ?thesis by (intro conjI same w u eq ro ids)
qed

section \<open>The access token in responses\<close>

lemma rest_without_key: "k \<notin> fst ` set (res_json (rest_without k obj))"
  by (auto simp: res_json_def rest_without_def)

lemma spread_without_token:
  "''accessToken'' \<notin> fst ` set (res_json (AList.update ''accessToken'' JUndefined (spread uo)))"
  by (cases uo) (simp_all add: spread_def user_object_def res_json_def nullable_def split: option.splits)

lemma auth_token_cases:
  "(\<exists>code msg. fst (fst (auth_token st e token session sy)) = Fail code msg) \<or>
   (\<exists>uo. fst (auth_token st e token session sy) = auth_respond uo)"
proof (cases "if_truthy token")
  case None
  then show ?thesis by (simp add: auth_token_def)
next
  case (Some tok)
  obtain r w' where f: "fetch_user e tok (world sy) = (r, w')"
    by (cases "fetch_user e tok (world sy)") auto
  show ?thesis
  proof (cases r)
    case (UserRejected t)
    with Some f show ?thesis by (simp add: auth_token_def)
  next
    case UserNotOk
    with Some f show ?thesis by (simp add: auth_token_def)
  next
    case (UserOk gu)
    with Some f show ?thesis
      by (auto simp: auth_token_def Let_def split: sum.splits option.splits prod.splits)
  qed
qed

text \<open>
  C10. Whatever the storage returns, a user object answered by \<open>GET /api/user\<close>, and
  the \<open>user\<close> of a successful \<open>POST /api/auth/token\<close>, has no property
  \<open>accessToken\<close> once serialised: the first route takes the rest of the object without
  the key, the second sets the key to \<open>undefined\<close>, which \<open>JSON.stringify\<close> omits.
\<close>

theorem responses_carry_no_access_token:
  "(\<forall>obj. fst (get_user st session sy) = Json obj \<longrightarrow> ''accessToken'' \<notin> fst ` set obj) \<and>
   (\<forall>r. fst (fst (auth_token st' e token session' sy')) = Json r \<longrightarrow>
        ''accessToken'' \<notin> fst ` set (a_user r))"
proof (intro conjI allI impI)
  fix obj
  assume "fst (get_user st session sy) = Json obj"
  then obtain user where "obj = res_json (rest_without ''accessToken'' (user_object user))"
    by (auto simp: get_user_def split: option.splits sum.splits)
  then show "''accessToken'' \<notin> fst ` set obj"
    by (simp only: rest_without_key not_False_eq_True)
next
  fix r
  assume j: "fst (fst (auth_token st' e token session' sy')) = Json r"
  with auth_token_cases[of st' e token session' sy']
  obtain uo where "fst (auth_token st' e token session' sy') = auth_respond uo"
    by auto
  with j have "a_user r = res_json (AList.update ''accessToken'' JUndefined (spread uo))"
    by (auto simp: auth_respond_def)
  then show "''accessToken'' \<notin> fst ` set (a_user r)"
    by (simp only: spread_without_token not_False_eq_True)
qed

lemma toString_42: "toString 42 = ''42''"
  by code_simp

theorem responses_carry_no_access_token_witness:
  "(\<exists>obj. fst (get_user memStorage (Some 1) sys_empty) = Json obj \<and>
          map fst obj = [''githubId'', ''username'', ''email'', ''avatarUrl'', ''id'', ''createdAt''] \<and>
          ''accessToken'' \<notin> fst ` set obj) \<and>
   (\<exists>r. fst (fst (auth_token memStorage store_env (Some ''ghp_token'') None sys_empty)) = Json r \<and>
        map fst (a_user r) = [''githubId'', ''username'', ''email'', ''avatarUrl'', ''id'', ''createdAt''] \<and>
        ''accessToken'' \<notin> fst ` set (a_user r)) \<and>
   map_of (user_object octo) ''accessToken'' = Some (JStr ''ghp_token'')"
proof -
  note inst = responses_carry_no_access_token[where st = memStorage and session = "Some 1"
      and sy = sys_empty and st' = memStorage and e = store_env
      and token = "Some ''ghp_token''" and session' = None and sy' = sys_empty]
  obtain obj where
    g: "fst (get_user memStorage (Some 1) sys_empty) = Json obj"
    and gk: "map fst obj = [''githubId'', ''username'', ''email'', ''avatarUrl'', ''id'', ''createdAt'']"
    by (simp add: get_user_def session_userId_def memStorage_def mem_getUser_def sys_empty_def
          mem_octo_def user_object_def rest_without_def res_json_def nullable_def octo_def)
  obtain r where
    a: "fst (fst (auth_token memStorage store_env (Some ''ghp_token'') None sys_empty)) = Json r"
    and ak: "map fst (a_user r) = [''githubId'', ''username'', ''email'', ''avatarUrl'', ''id'', ''createdAt'']"
    by (simp add: auth_token_def auth_respond_def if_truthy_def store_env_def memStorage_def
          mem_getUserByGithubId_def mem_updateUserToken_def sys_empty_def mem_octo_def
          octo_def spread_def user_object_def res_json_def nullable_def Let_def
          toString_42)
  have g': "''accessToken'' \<notin> fst ` set obj"
    by (rule inst[THEN conjunct1, THEN spec, THEN mp, OF g])
  have a': "''accessToken'' \<notin> fst ` set (a_user r)"
    by (rule inst[THEN conjunct2, THEN spec, THEN mp, OF a])
  have t: "map_of (user_object octo) ''accessToken'' = Some (JStr ''ghp_token'')"
    by (simp add: user_object_def octo_def)
  show ?thesis
    by (intro conjI exI[of _ obj] exI[of _ r] g gk g' a ak a' t)
qed

section \<open>Status updates\<close>

text \<open>
  C4, as stated, fails: \<open>updateFileOperationStatus\<close> checks no transition. A record
  with status \<open>completed\<close> is set back to \<open>pending\<close>.
\<close>

theorem completed_record_set_back_to_pending:
  "map (\<lambda>kv. status (snd kv)) (fileOperations mem_completed) = [''completed''] \<and>
   map (\<lambda>kv. status (snd kv))
     (fileOperations (snd (mem_updateFileOperationStatus 1 ''pending'' mem_completed))) =
     [''pending'']"
  by (simp add: mem_completed_def mem_updateFileOperationStatus_def Let_def)

text \<open>
  C4, amended. \<open>updateFileOperationStatus\<close> of \<open>MemStorage\<close> overwrites the status
  of an existing record with the string it is given, whatever the status was; it returns
  the updated record, changes no other field, no other record and not the order of the
  map. For an id that is not in the map it returns \<open>undefined\<close> and changes nothing.
\<close>

theorem update_status_overwrites:
  "(map_of (fileOperations s) i = Some fileOp \<longrightarrow>
      fst (mem_updateFileOperationStatus i st s) = Some (fileOp\<lparr>status := st\<rparr>) \<and>
      map_of (fileOperations (snd (mem_updateFileOperationStatus i st s))) i =
        Some (fileOp\<lparr>status := st\<rparr>) \<and>
      (\<forall>j. j \<noteq> i \<longrightarrow>
         map_of (fileOperations (snd (mem_updateFileOperationStatus i st s))) j =
           map_of (fileOperations s) j) \<and>
      map fst (fileOperations (snd (mem_updateFileOperationStatus i st s))) =
        map fst (fileOperations s)) \<and>
   (map_of (fileOperations s) i = None \<longrightarrow> mem_updateFileOperationStatus i st s = (None, s))"
proof (intro conjI impI allI)
  assume a: "map_of (fileOperations s) i = Some fileOp"
  then have k: "i \<in> set (map fst (fileOperations s))"
    by (auto dest: map_of_SomeD intro: rev_image_eqI)
  from a show "fst (mem_updateFileOperationStatus i st s) = Some (fileOp\<lparr>status := st\<rparr>)"
    by (simp add: mem_updateFileOperationStatus_def Let_def)
  from a show "map_of (fileOperations (snd (mem_updateFileOperationStatus i st s))) i =
        Some (fileOp\<lparr>status := st\<rparr>)"
    by (simp add: mem_updateFileOperationStatus_def Let_def update_conv')
  from a k show "map fst (fileOperations (snd (mem_updateFileOperationStatus i st s))) =
        map fst (fileOperations s)"
    by (simp add: mem_updateFileOperationStatus_def Let_def update_keys)
  fix j assume "j \<noteq> i"
  with a show "map_of (fileOperations (snd (mem_updateFileOperationStatus i st s))) j =
           map_of (fileOperations s) j"
    by (simp add: mem_updateFileOperationStatus_def Let_def update_conv')
next
  assume "map_of (fileOperations s) i = None"
  then show "mem_updateFileOperationStatus i st s = (None, s)"
    by (simp add: mem_updateFileOperationStatus_def Let_def)
qed

theorem update_status_overwrites_witness:
  "map_of (fileOperations mem_busy) 2 = Some (snd (entry 2 1 20)) \<and>
   fst (mem_updateFileOperationStatus 2 ''failed'' mem_busy) =
     Some ((snd (entry 2 1 20))\<lparr>status := ''failed''\<rparr>) \<and>
   map fst (fileOperations (snd (mem_updateFileOperationStatus 2 ''failed'' mem_busy))) =
     map fst (fileOperations mem_busy) \<and>
   map_of (fileOperations mem_busy) 99 = None \<and>
   mem_updateFileOperationStatus 99 ''failed'' mem_busy = (None, mem_busy)"
proof -
  have h: "map_of (fileOperations mem_busy) 2 = Some (snd (entry 2 1 20))"
    by (simp add: mem_busy_def entry_def)
  have n: "map_of (fileOperations mem_busy) 99 = None"
    by (simp add: mem_busy_def entry_def)
  note i1 = update_status_overwrites[where s = mem_busy and i = 2
      and fileOp = "snd (entry 2 1 20)" and st = "''failed''",
      THEN conjunct1, THEN mp, OF h]
  note i2 = update_status_overwrites[where s = mem_busy and i = 99
      and fileOp = "snd (entry 2 1 20)" and st = "''failed''",
      THEN conjunct2, THEN mp, OF n]
  show ?thesis
    by (intro conjI h n i1[THEN conjunct1] i1[THEN conjunct2, THEN conjunct2, THEN conjunct2] i2)
qed

section \<open>What the counts of the batch do satisfy\<close>

text \<open>
  In every aggregate \<open>success\<close> holds exactly when \<open>failed\<close> is 0, and the two
  counts are the lengths of the two lists. On \<open>MemStorage\<close>, whose logging never
  rejects, and when every element of the array is an object with a content, each file
  lands in exactly one of the lists.
\<close>

lemma upload_batch_success_iff:
  assumes "upload_batch st e session owner repo body sy = (Json agg, sy')"
  shows "success agg = (failed agg = 0) \<and> uploaded agg = length (results agg) \<and>
         failed agg = length (errors agg)"
proof (cases rule: upload_batch_cases[of st e session owner repo body sy])
  case (fail code msg)
  with assms show ?thesis by simp
next
  case (escaped uid user fs rs es sy2)
  with assms show ?thesis by simp
next
  case (run uid user fs rs es sy2)
  with assms have "agg = \<lparr>success = (length es = 0), uploaded = length rs, failed = length es,
               results = rs, errors = es\<rparr>" by simp
  then show ?thesis by simp
qed

lemma upload_one_counts:
  assumes "content f \<noteq> None"
    and "upload_one memStorage e user uid owner repo body f (rs, es, sy) = (rs', es', sy')"
  shows "length rs' + length es' = Suc (length rs + length es)"
proof (cases rule: upload_one_cases[of e user owner repo body f sy memStorage uid rs es])
  case (rejected t w')
  with assms(2) show ?thesis by auto
next
  case (refused result w' msg)
  with assms(2) show ?thesis by auto
next
  case (unlogged result w' msg)
  with assms(1) show ?thesis by (simp add: memStorage_create)
next
  case (logged result w' ins date fileOp s')
  with assms(2) show ?thesis by auto
qed

lemma run_objects_counts:
  "\<forall>f\<in>set fs. content f \<noteq> None \<Longrightarrow>
   run_objects memStorage e user uid owner repo body fs (rs, es, sy) = (rs', es', sy') \<Longrightarrow>
   length rs' + length es' = length rs + length es + length fs"
proof (induction fs arbitrary: rs es sy)
  case Nil
  then show ?case by simp
next
  case (Cons f fs)
  obtain rs1 es1 sy1 where
    one: "upload_one memStorage e user uid owner repo body f (rs, es, sy) = (rs1, es1, sy1)"
    by (cases "upload_one memStorage e user uid owner repo body f (rs, es, sy)") auto
  from Cons.prems(1) have c: "content f \<noteq> None" and cs: "\<forall>f\<in>set fs. content f \<noteq> None"
    by simp_all
  have rest: "run_objects memStorage e user uid owner repo body fs (rs1, es1, sy1) = (rs', es', sy')"
    using Cons.prems(2) one by simp
  from Cons.IH[OF cs rest] upload_one_counts[OF c one] show ?case by simp
qed

lemma upload_batch_counts_when_logging_succeeds:
  assumes "files body = FilesArray (map Some fs)" "\<forall>f\<in>set fs. content f \<noteq> None"
    and "upload_batch memStorage e session owner repo body sy = (Json agg, sy')"
  shows "uploaded agg + failed agg = length fs"
proof (cases rule: upload_batch_cases[of memStorage e session owner repo body sy])
  case (fail code msg)
  with assms(3) show ?thesis by simp
next
  case (escaped uid user fs2 rs es sy2)
  with assms(3) show ?thesis by simp
next
  case (run uid user fs2 rs es sy2)
  with assms(1) have "map Some fs2 = map Some fs" by simp
  then have "fs2 = fs" by (simp add: inj_map_eq_map)
  with run_objects_counts[OF _ run(5)] assms(2)
  have "length rs + length es = length fs" by simp
  moreover from run(6) assms(3)
  have "agg = \<lparr>success = (length es = 0), uploaded = length rs, failed = length es,
               results = rs, errors = es\<rparr>" by simp
  ultimately show ?thesis by simp
qed

end
